theory Spec2Isabelle
  imports Main "HOL-Library.Multiset"
begin

section \<open>Strings\<close>

text \<open>
  Names and ids are JavaScript strings. They are modelled as \<^typ>\<open>string\<close>; a
  character stands for a code point in the range U+0000 .. U+00FF. \<open>trim\<close> removes
  the white space and line terminators of that range from both ends, and
  \<open>toLowerCase\<close> maps the upper-case letters of that range to their lower-case
  partners (which lie 32 code points higher).
\<close>

definition is_space :: "char \<Rightarrow> bool" where
  "is_space c = (of_char c \<in> {9, 10, 11, 12, 13, 32, 160 :: nat})"

definition trim :: "string \<Rightarrow> string" where
  "trim s = rev (dropWhile is_space (rev (dropWhile is_space s)))"

definition lower_char :: "char \<Rightarrow> char" where
  "lower_char c =
     (let n = (of_char c :: nat)
      in if (65 \<le> n \<and> n \<le> 90) \<or> (192 \<le> n \<and> n \<le> 222 \<and> n \<noteq> 215)
         then char_of (n + 32) else c)"

definition toLowerCase :: "string \<Rightarrow> string" where
  "toLowerCase s = map lower_char s"

section \<open>Mobile variant (app/index.tsx)\<close>

subsection \<open>Data\<close>

text \<open>
  The interface \<open>Player\<close> of the mobile variant has a running score; the fields
  carry the prefix \<open>m_\<close> because the web variant declares a different \<open>Player\<close>.
  A JavaScript number holding a score is an \<^typ>\<open>int\<close>: scores start at 0 and
  change by adding integers.
\<close>

record MPlayer =
  m_id :: string
  m_name :: string
  m_score :: int

record GameType =
  gt_id :: string
  gt_name :: string
  gt_description :: string

definition gameTypes :: "GameType list" where
  "gameTypes =
     [\<lparr>gt_id = ''hearts'', gt_name = ''Hearts'', gt_description = ''Lowest score wins''\<rparr>,
      \<lparr>gt_id = ''spades'', gt_name = ''Spades'', gt_description = ''Highest score wins''\<rparr>,
      \<lparr>gt_id = ''rummy'', gt_name = ''Rummy'', gt_description = ''First to target score''\<rparr>,
      \<lparr>gt_id = ''poker'', gt_name = ''Poker'', gt_description = ''Chip counting''\<rparr>,
      \<lparr>gt_id = ''custom'', gt_name = ''Custom'', gt_description = ''Your own rules''\<rparr>]"

text \<open>The component state of \<open>ScoreTracker\<close>: one field for each \<open>useState\<close>.\<close>

record mobile_state =
  m_players :: "MPlayer list"
  m_newPlayerName :: string
  selectedGameType :: GameType
  round :: int
  gameStarted :: bool

definition mobile_init :: mobile_state where
  "mobile_init =
     \<lparr>m_players = [], m_newPlayerName = [], selectedGameType = hd gameTypes,
      round = 1, gameStarted = False\<rparr>"

text \<open>
  A handler that shows an error alert and returns leaves the state as it is; the
  alert is the error value of the model.
\<close>

datatype alert =
    EmptyName          \<comment> \<open>\<open>Please enter a player name\<close>\<close>
  | DuplicateName      \<comment> \<open>\<open>Player name already exists\<close>\<close>
  | InsufficientPlayers  \<comment> \<open>\<open>You need at least 2 players to start a game\<close>\<close>

subsection \<open>Handlers\<close>

text \<open>
  \<open>addPlayer\<close> reads the text field \<open>newPlayerName\<close>; \<open>now\<close> is the value of
  \<open>Date.now().toString()\<close> at the call.
\<close>

definition addPlayer_mobile :: "string \<Rightarrow> mobile_state \<Rightarrow> alert + mobile_state" where
  "addPlayer_mobile now st =
     (if trim (m_newPlayerName st) = [] then Inl EmptyName
      else if list_ex (\<lambda>player. toLowerCase (m_name player) = toLowerCase (m_newPlayerName st))
                (m_players st)
      then Inl DuplicateName
      else
        let newPlayer = \<lparr>m_id = now, m_name = trim (m_newPlayerName st), m_score = 0\<rparr>
        in Inr (st\<lparr>m_players := m_players st @ [newPlayer], m_newPlayerName := []\<rparr>))"

text \<open>The \<open>Remove\<close> button of the confirmation dialog of \<open>removePlayer\<close>.\<close>

definition removePlayer :: "string \<Rightarrow> mobile_state \<Rightarrow> mobile_state" where
  "removePlayer playerId st = st\<lparr>m_players := filter (\<lambda>p. m_id p \<noteq> playerId) (m_players st)\<rparr>"

definition updateScore :: "string \<Rightarrow> int \<Rightarrow> mobile_state \<Rightarrow> mobile_state" where
  "updateScore playerId change st =
     st\<lparr>m_players :=
          map (\<lambda>player. if m_id player = playerId
                         then player\<lparr>m_score := max 0 (m_score player + change)\<rparr>
                         else player)
            (m_players st)\<rparr>"

definition startGame :: "mobile_state \<Rightarrow> alert + mobile_state" where
  "startGame st =
     (if length (m_players st) < 2 then Inl InsufficientPlayers
      else Inr (st\<lparr>gameStarted := True\<rparr>))"

text \<open>The \<open>Reset\<close> button of the confirmation dialog of \<open>resetGame\<close>.\<close>

definition resetGame_mobile :: "mobile_state \<Rightarrow> mobile_state" where
  "resetGame_mobile st =
     st\<lparr>m_players := map (\<lambda>player. player\<lparr>m_score := 0\<rparr>) (m_players st), round := 1\<rparr>"

text \<open>The \<open>New Game\<close> button of the confirmation dialog of \<open>newGame\<close>.\<close>

definition newGame :: "mobile_state \<Rightarrow> mobile_state" where
  "newGame st = st\<lparr>m_players := [], round := 1, gameStarted := False\<rparr>"

text \<open>The play-forward button: \<open>setRound(round + 1)\<close>.\<close>

definition nextRound :: "mobile_state \<Rightarrow> mobile_state" where
  "nextRound st = st\<lparr>round := round st + 1\<rparr>"

text \<open>
  \<open>Array.prototype.reduce\<close> without an initial value starts from the first element
  and folds the rest from left to right; \<open>getWinner\<close> calls it on a non-empty
  array only.
\<close>

definition getWinner_mobile :: "mobile_state \<Rightarrow> MPlayer option" where
  "getWinner_mobile st =
     (case m_players st of
        [] \<Rightarrow> None
      | first # rest \<Rightarrow>
          if gt_id (selectedGameType st) = ''hearts''
          then Some (foldl (\<lambda>min player. if m_score player < m_score min then player else min)
                       first rest)
          else Some (foldl (\<lambda>max player. if m_score player > m_score max then player else max)
                       first rest))"

section \<open>Web variant (src/App.tsx)\<close>

subsection \<open>The pending scores object\<close>

text \<open>
  \<open>currentRoundScores\<close> is a plain object from player ids to numbers. It is
  modelled as an association list in the order in which \<open>Object.entries\<close> lists
  the own properties: keys that are array indices (canonical decimal numerals below
  \<open>2^32 - 1\<close>) in ascending numeric order, then the other keys in the order of
  their creation. Writing an existing key keeps its place. The keys are player ids,
  which \<open>Date.now().toString()\<close> or the initial player list supply; the properties
  that every object inherits from \<open>Object.prototype\<close> are left out.
\<close>

type_synonym scores_object = "(string \<times> int) list"

definition is_digit :: "char \<Rightarrow> bool" where
  "is_digit c = (48 \<le> (of_char c :: nat) \<and> (of_char c :: nat) \<le> 57)"

definition digits_value :: "string \<Rightarrow> nat" where
  "digits_value s = foldl (\<lambda>n c. 10 * n + (of_char c - 48)) 0 s"

definition array_index :: "string \<Rightarrow> nat option" where
  "array_index s =
     (if s \<noteq> [] \<and> list_all is_digit s \<and> (s = ''0'' \<or> hd s \<noteq> CHR ''0'')
         \<and> digits_value s < 4294967295
      then Some (digits_value s) else None)"

text \<open>\<open>key_before k k'\<close>: a new key \<open>k\<close> is listed before the present key \<open>k'\<close>.\<close>

definition key_before :: "string \<Rightarrow> string \<Rightarrow> bool" where
  "key_before k k' =
     (case array_index k of
        None \<Rightarrow> False
      | Some i \<Rightarrow> (case array_index k' of None \<Rightarrow> True | Some j \<Rightarrow> i < j))"

fun obj_insert :: "string \<Rightarrow> int \<Rightarrow> scores_object \<Rightarrow> scores_object" where
  "obj_insert k v [] = [(k, v)]"
| "obj_insert k v ((k', v') # m) =
     (if key_before k k' then (k, v) # (k', v') # m else (k', v') # obj_insert k v m)"

text \<open>\<open>obj_get m k\<close> is \<open>m[k]\<close>, with \<open>None\<close> for \<open>undefined\<close>.\<close>

definition obj_get :: "scores_object \<Rightarrow> string \<Rightarrow> int option" where
  "obj_get m k = map_of m k"

text \<open>\<open>obj_set m k v\<close> is \<open>{...m, [k]: v}\<close>, and \<open>m[k] = v\<close> on a fresh object.\<close>

definition obj_set :: "scores_object \<Rightarrow> string \<Rightarrow> int \<Rightarrow> scores_object" where
  "obj_set m k v =
     (case obj_get m k of
        None \<Rightarrow> obj_insert k v m
      | Some _ \<Rightarrow> map (\<lambda>(k', v'). if k' = k then (k', v) else (k', v')) m)"

subsection \<open>Data\<close>

text \<open>
  Field names carry a prefix where two interfaces share a name. \<open>createdAt\<close> is
  the time value of the \<open>Date\<close>.
\<close>

record Player =
  p_id :: string
  p_name :: string

record RoundScore =
  playerId :: string
  score :: int

record Round =
  r_id :: string
  number :: nat
  scores :: "RoundScore list"
  total :: int

record Game =
  g_id :: string
  g_name :: string
  g_players :: "Player list"
  rounds :: "Round list"
  createdAt :: nat

text \<open>The component state of \<open>App\<close>: one field for each \<open>useState\<close>.\<close>

record web_state =
  games :: "Game list"
  currentGame :: "Game option"
  players :: "Player list"
  isCreateGameOpen :: bool
  newGameName :: string
  selectedPlayers :: "Player list"
  newPlayerName :: string
  currentRoundScores :: scores_object

definition web_init :: web_state where
  "web_init =
     \<lparr>games = [], currentGame = None,
      players = [\<lparr>p_id = ''1'', p_name = ''Alice''\<rparr>, \<lparr>p_id = ''2'', p_name = ''Bob''\<rparr>,
                 \<lparr>p_id = ''3'', p_name = ''Charlie''\<rparr>, \<lparr>p_id = ''4'', p_name = ''Diana''\<rparr>],
      isCreateGameOpen = False, newGameName = [], selectedPlayers = [],
      newPlayerName = [], currentRoundScores = []\<rparr>"

subsection \<open>Handlers\<close>

text \<open>
  The object that \<open>createGame\<close>, \<open>finishRound\<close> and \<open>resetGame\<close> build with
  \<open>forEach(player => { scores[player.id] = 0 })\<close> from the empty object.
\<close>

definition zeroScores :: "Player list \<Rightarrow> scores_object" where
  "zeroScores ps = foldl (\<lambda>m player. obj_set m (p_id player) 0) [] ps"

text \<open>
  \<open>now\<close> is the value of \<open>Date.now().toString()\<close> and \<open>date\<close> the time value of
  \<open>new Date()\<close> at the call.
\<close>

definition createGame :: "string \<Rightarrow> nat \<Rightarrow> web_state \<Rightarrow> web_state" where
  "createGame now date st =
     (if trim (newGameName st) = [] \<or> length (selectedPlayers st) < 2 then st
      else
        let newGame = \<lparr>g_id = now, g_name = newGameName st, g_players = selectedPlayers st,
                       rounds = [], createdAt = date\<rparr>
        in st\<lparr>games := games st @ [newGame],
              currentGame := Some newGame,
              isCreateGameOpen := False,
              newGameName := [],
              selectedPlayers := [],
              currentRoundScores := zeroScores (selectedPlayers st)\<rparr>)"

definition addPlayer_web :: "string \<Rightarrow> web_state \<Rightarrow> web_state" where
  "addPlayer_web now st =
     (if trim (newPlayerName st) = [] then st
      else
        let newPlayer = \<lparr>p_id = now, p_name = newPlayerName st\<rparr>
        in st\<lparr>players := players st @ [newPlayer], newPlayerName := []\<rparr>)"

definition togglePlayerSelection :: "Player \<Rightarrow> web_state \<Rightarrow> web_state" where
  "togglePlayerSelection player st =
     st\<lparr>selectedPlayers :=
          (case find (\<lambda>p. p_id p = p_id player) (selectedPlayers st) of
             Some _ \<Rightarrow> filter (\<lambda>p. p_id p \<noteq> p_id player) (selectedPlayers st)
           | None \<Rightarrow> selectedPlayers st @ [player])\<rparr>"

text \<open>\<open>prev[playerId] || 0\<close> is 0 for a missing key.\<close>

definition updateRoundScore :: "string \<Rightarrow> int \<Rightarrow> web_state \<Rightarrow> web_state" where
  "updateRoundScore pid change st =
     st\<lparr>currentRoundScores :=
          obj_set (currentRoundScores st) pid
            ((case obj_get (currentRoundScores st) pid of None \<Rightarrow> 0 | Some v \<Rightarrow> v) + change)\<rparr>"

definition finishRound :: "string \<Rightarrow> web_state \<Rightarrow> web_state" where
  "finishRound now st =
     (case currentGame st of
        None \<Rightarrow> st
      | Some game \<Rightarrow>
          let roundScores = map (\<lambda>(pid, sc). \<lparr>playerId = pid, score = sc\<rparr>) (currentRoundScores st);
              roundTotal = foldl (\<lambda>sum rs. sum + score rs) 0 roundScores;
              newRound = \<lparr>r_id = now, number = length (rounds game) + 1,
                          scores = roundScores, total = roundTotal\<rparr>;
              updatedGame = game\<lparr>rounds := rounds game @ [newRound]\<rparr>
          in st\<lparr>currentGame := Some updatedGame,
                games := map (\<lambda>g. if g_id g = g_id game then updatedGame else g) (games st),
                currentRoundScores := zeroScores (g_players game)\<rparr>)"

text \<open>\<open>playerScore?.score || 0\<close> is 0 when the round has no entry for the player.\<close>

definition getPlayerTotalScore :: "web_state \<Rightarrow> string \<Rightarrow> int" where
  "getPlayerTotalScore st pid =
     (case currentGame st of
        None \<Rightarrow> 0
      | Some game \<Rightarrow>
          foldl (\<lambda>tot rnd.
                   tot + (case find (\<lambda>s. playerId s = pid) (scores rnd) of
                            None \<Rightarrow> 0 | Some playerScore \<Rightarrow> score playerScore))
            0 (rounds game))"

text \<open>
  \<open>highestScore\<close> starts at \<open>-Infinity\<close>, which is \<open>None\<close> here; every total is
  greater than it.
\<close>

definition exceeds :: "int \<Rightarrow> int option \<Rightarrow> bool" where
  "exceeds totalScore highestScore =
     (case highestScore of None \<Rightarrow> True | Some h \<Rightarrow> totalScore > h)"

definition getWinner_web :: "web_state \<Rightarrow> Player option" where
  "getWinner_web st =
     (case currentGame st of
        None \<Rightarrow> None
      | Some game \<Rightarrow>
          if length (rounds game) = 0 then None
          else snd (foldl (\<lambda>(highestScore, winner) player.
                             let totalScore = getPlayerTotalScore st (p_id player)
                             in if exceeds totalScore highestScore
                                then (Some totalScore, Some player)
                                else (highestScore, winner))
                      (None, None) (g_players game)))"

definition resetGame_web :: "web_state \<Rightarrow> web_state" where
  "resetGame_web st =
     (case currentGame st of
        None \<Rightarrow> st
      | Some game \<Rightarrow>
          let resetGame = game\<lparr>rounds := []\<rparr>
          in st\<lparr>currentGame := Some resetGame,
                games := map (\<lambda>g. if g_id g = g_id game then resetGame else g) (games st),
                currentRoundScores := zeroScores (g_players game)\<rparr>)"

text \<open>
  A click on the \<open>i\<close>-th entry of the list of recent games,
  \<open>games.slice(-5).reverse()\<close>, calls \<open>setCurrentGame(game)\<close>.
\<close>

definition selectRecentGame :: "nat \<Rightarrow> web_state \<Rightarrow> web_state" where
  "selectRecentGame i st =
     (let recent = rev (drop (length (games st) - 5) (games st))
      in if i < length recent then st\<lparr>currentGame := Some (recent ! i)\<rparr> else st)"

text \<open>
  \<open>Array.prototype.sort\<close> with a comparator is a stable sort: an element moves in
  front of another one only where the comparator is negative. It is modelled by
  insertion from the left.
\<close>

fun insert_sorted :: "('a \<Rightarrow> 'a \<Rightarrow> int) \<Rightarrow> 'a \<Rightarrow> 'a list \<Rightarrow> 'a list" where
  "insert_sorted cmp x [] = [x]"
| "insert_sorted cmp x (y # ys) =
     (if cmp x y < 0 then x # y # ys else y # insert_sorted cmp x ys)"

definition array_sort :: "('a \<Rightarrow> 'a \<Rightarrow> int) \<Rightarrow> 'a list \<Rightarrow> 'a list" where
  "array_sort cmp xs = foldl (\<lambda>acc x. insert_sorted cmp x acc) [] xs"

text \<open>
  The list of the \<open>Total Scores\<close> card; the object \<open>{...player, totalScore}\<close> is
  the pair of the player and the total.
\<close>

definition totalScores :: "web_state \<Rightarrow> (Player \<times> int) list" where
  "totalScores st =
     (case currentGame st of
        None \<Rightarrow> []
      | Some game \<Rightarrow>
          array_sort (\<lambda>a b. snd b - snd a)
            (map (\<lambda>player. (player, getPlayerTotalScore st (p_id player))) (g_players game)))"

text \<open>The user's actions on the web variant, and the handler each one runs.\<close>

datatype web_event =
    SetIsCreateGameOpen bool
  | SetNewGameName string
  | SetNewPlayerName string
  | TogglePlayerSelection Player
  | AddPlayer string
  | CreateGame string nat
  | SelectRecentGame nat
  | UpdateRoundScore string int
  | FinishRound string
  | ResetGame

fun handle :: "web_event \<Rightarrow> web_state \<Rightarrow> web_state" where
  "handle (SetIsCreateGameOpen b) st = st\<lparr>isCreateGameOpen := b\<rparr>"
| "handle (SetNewGameName n) st = st\<lparr>newGameName := n\<rparr>"
| "handle (SetNewPlayerName n) st = st\<lparr>newPlayerName := n\<rparr>"
| "handle (TogglePlayerSelection p) st = togglePlayerSelection p st"
| "handle (AddPlayer now) st = addPlayer_web now st"
| "handle (CreateGame now date) st = createGame now date st"
| "handle (SelectRecentGame i) st = selectRecentGame i st"
| "handle (UpdateRoundScore pid change) st = updateRoundScore pid change st"
| "handle (FinishRound now) st = finishRound now st"
| "handle ResetGame st = resetGame_web st"

definition run :: "web_event list \<Rightarrow> web_state \<Rightarrow> web_state" where
  "run evs st = foldl (\<lambda>s e. handle e s) st evs"

subsection \<open>Well-formed round histories\<close>

definition rounds_wf :: "Round list \<Rightarrow> bool" where
  "rounds_wf rs =
     (\<forall>i < length rs. number (rs ! i) = i + 1
        \<and> total (rs ! i) = sum_list (map score (scores (rs ! i))))"

definition ledger_inv :: "web_state \<Rightarrow> bool" where
  "ledger_inv st =
     ((\<forall>g \<in> set (games st). rounds_wf (rounds g))
      \<and> (\<forall>g. currentGame st = Some g \<longrightarrow> rounds_wf (rounds g)))"

text \<open>Every game has the two players that \<open>createGame\<close> asks for.\<close>

definition enough_players :: "web_state \<Rightarrow> bool" where
  "enough_players st =
     ((\<forall>g \<in> set (games st). 2 \<le> length (g_players g))
      \<and> (\<forall>g. currentGame st = Some g \<longrightarrow> 2 \<le> length (g_players g)))"

subsection \<open>A sample game\<close>

definition alice :: Player where
  "alice = \<lparr>p_id = ''1'', p_name = ''Alice''\<rparr>"

definition bob :: Player where
  "bob = \<lparr>p_id = ''2'', p_name = ''Bob''\<rparr>"

definition charlie :: Player where
  "charlie = \<lparr>p_id = ''3'', p_name = ''Charlie''\<rparr>"

definition sample_setup :: "web_event list" where
  "sample_setup =
     [SetNewGameName ''Friday'', TogglePlayerSelection alice, TogglePlayerSelection bob,
      CreateGame ''100'' 100]"

definition sample_game :: Game where
  "sample_game =
     \<lparr>g_id = ''100'', g_name = ''Friday'', g_players = [alice, bob], rounds = [],
      createdAt = 100\<rparr>"

text \<open>The state after \<open>sample_setup\<close> and the adjustments +5 for Alice, +3 for Bob.\<close>

definition sample_state :: web_state where
  "sample_state =
     web_init\<lparr>games := [sample_game], currentGame := Some sample_game,
              currentRoundScores := [(''1'', 5), (''2'', 3)]\<rparr>"

text \<open>A mobile game in its third round.\<close>

definition sample_mobile :: mobile_state where
  "sample_mobile =
     mobile_init\<lparr>m_players := [\<lparr>m_id = ''7'', m_name = ''Alice'', m_score = 4\<rparr>,
                               \<lparr>m_id = ''8'', m_name = ''Bob'', m_score = 9\<rparr>],
                  round := 3, gameStarted := True\<rparr>"

text \<open>Alice and Charlie tie at 10 after the first round, Bob has 8.\<close>

definition tie_game :: Game where
  "tie_game =
     \<lparr>g_id = ''100'', g_name = ''Friday'', g_players = [alice, bob, charlie],
      rounds = [\<lparr>r_id = ''101'', number = 1,
                 scores = [\<lparr>playerId = ''1'', score = 10\<rparr>, \<lparr>playerId = ''2'', score = 8\<rparr>,
                           \<lparr>playerId = ''3'', score = 10\<rparr>],
                 total = 28\<rparr>],
      createdAt = 100\<rparr>"

definition tie_state :: web_state where
  "tie_state =
     web_init\<lparr>games := [tie_game], currentGame := Some tie_game,
              currentRoundScores := [(''1'', 0), (''2'', 0), (''3'', 0)]\<rparr>"

text \<open>A mobile game of Hearts in which Bob and Charlie tie at the lowest score.\<close>

definition hearts_state :: mobile_state where
  "hearts_state =
     mobile_init\<lparr>m_players := [\<lparr>m_id = ''7'', m_name = ''Alice'', m_score = 4\<rparr>,
                               \<lparr>m_id = ''8'', m_name = ''Bob'', m_score = 2\<rparr>,
                               \<lparr>m_id = ''9'', m_name = ''Charlie'', m_score = 2\<rparr>],
                  gameStarted := True\<rparr>"

text \<open>A mobile game of Spades in its first round, Bob already at 3.\<close>

definition spades_state :: mobile_state where
  "spades_state =
     mobile_init\<lparr>m_players := [\<lparr>m_id = ''7'', m_name = ''Alice'', m_score = 0\<rparr>,
                               \<lparr>m_id = ''8'', m_name = ''Bob'', m_score = 3\<rparr>],
                  selectedGameType := gameTypes ! 1, gameStarted := True\<rparr>"

text \<open>
  The user types a name into the text field and presses the add button, once for each
  entry of the list; an alert leaves the state as it is after the typing. The second
  component of an entry is the value of \<open>Date.now().toString()\<close> at the call.
\<close>

fun addPlayers :: "(string \<times> string) list \<Rightarrow> mobile_state \<Rightarrow> mobile_state" where
  "addPlayers [] st = st"
| "addPlayers ((name, now) # rest) st =
     (case addPlayer_mobile now (st\<lparr>m_newPlayerName := name\<rparr>) of
        Inl _ \<Rightarrow> addPlayers rest (st\<lparr>m_newPlayerName := name\<rparr>)
      | Inr st' \<Rightarrow> addPlayers rest st')"

subsection \<open>Total scores\<close>

text \<open>
  The total score as the spec words it: the sum, over the committed rounds, of the
  player's score in the round, a round without an entry for the player counting 0. The
  scores of a round are a list here; the entry of a player is the first one with its id.
\<close>

definition round_score :: "Round \<Rightarrow> string \<Rightarrow> int" where
  "round_score r pid =
     (case find (\<lambda>s. playerId s = pid) (scores r) of None \<Rightarrow> 0 | Some s \<Rightarrow> score s)"

definition totalScore_spec :: "Game \<Rightarrow> string \<Rightarrow> int" where
  "totalScore_spec game pid = sum_list (map (\<lambda>r. round_score r pid) (rounds game))"

text \<open>Two committed rounds: Alice +5 and -2, Bob +3 and +4.\<close>

definition two_rounds_game :: Game where
  "two_rounds_game =
     \<lparr>g_id = ''100'', g_name = ''Friday'', g_players = [alice, bob],
      rounds = [\<lparr>r_id = ''101'', number = 1,
                 scores = [\<lparr>playerId = ''1'', score = 5\<rparr>, \<lparr>playerId = ''2'', score = 3\<rparr>],
                 total = 8\<rparr>,
                \<lparr>r_id = ''102'', number = 2,
                 scores = [\<lparr>playerId = ''1'', score = - 2\<rparr>, \<lparr>playerId = ''2'', score = 4\<rparr>],
                 total = 2\<rparr>],
      createdAt = 100\<rparr>"

definition two_rounds_state :: web_state where
  "two_rounds_state =
     run (sample_setup @ [UpdateRoundScore ''1'' 5, UpdateRoundScore ''2'' 3, FinishRound ''101'',
                          UpdateRoundScore ''1'' (- 2), UpdateRoundScore ''2'' 4, FinishRound ''102''])
       web_init"

subsection \<open>Replaying a game\<close>

text \<open>
  Two actions are the same adjustment or both a commit; a commit carries the clock
  value that becomes the id of the round, which differs when the commit is repeated.
\<close>

definition same_action :: "web_event \<Rightarrow> web_event \<Rightarrow> bool" where
  "same_action a b =
     (case a of
        UpdateRoundScore pid change \<Rightarrow> b = UpdateRoundScore pid change
      | FinishRound now \<Rightarrow> (case b of FinishRound now' \<Rightarrow> True | _ \<Rightarrow> False)
      | _ \<Rightarrow> False)"

text \<open>What a state shows of its ledger when the ids of the rounds are left out.\<close>

definition round_view :: "Round \<Rightarrow> nat \<times> RoundScore list \<times> int" where
  "round_view r = (number r, scores r, total r)"

definition same_ledger :: "web_state \<Rightarrow> web_state \<Rightarrow> bool" where
  "same_ledger s t =
     (currentRoundScores s = currentRoundScores t
      \<and> rel_option (\<lambda>g h. g_players g = g_players h
                        \<and> map round_view (rounds g) = map round_view (rounds h))
          (currentGame s) (currentGame t))"

section \<open>Facts about the pending scores object\<close>

lemma map_of_obj_insert:
  "map_of m k = None \<Longrightarrow> map_of (obj_insert k v m) = (map_of m)(k \<mapsto> v)"
  by (induction m) (auto simp: fun_eq_iff split: if_splits)

lemma obj_get_obj_set:
  "obj_get (obj_set m k v) k' = (if k' = k then Some v else obj_get m k')"
proof (cases "map_of m k")
  case None
  then show ?thesis by (simp add: obj_get_def obj_set_def map_of_obj_insert)
next
  case (Some a)
  have "map_of (map (\<lambda>(k', v'). if k' = k then (k', v) else (k', v')) m) k'
        = (if k' = k then (case map_of m k of None \<Rightarrow> None | Some _ \<Rightarrow> Some v) else map_of m k')"
    by (induction m) auto
  with Some show ?thesis by (simp add: obj_get_def obj_set_def)
qed

lemma set_obj_insert: "set (obj_insert k v m) = insert (k, v) (set m)"
  by (induction m) (auto split: if_splits)

lemma keys_obj_set: "fst ` set (obj_set m k v) = insert k (fst ` set m)"
proof (cases "map_of m k")
  case None
  then show ?thesis by (simp add: obj_get_def obj_set_def set_obj_insert)
next
  case (Some a)
  then have "k \<in> fst ` set m" by (force dest: map_of_SomeD)
  moreover have "fst ` set (map (\<lambda>(k', v'). if k' = k then (k', v) else (k', v')) m) = fst ` set m"
    by (induction m) auto
  ultimately show ?thesis using Some by (auto simp: obj_get_def obj_set_def)
qed

lemma values_obj_set: "snd ` set (obj_set m k v) \<subseteq> insert v (snd ` set m)"
proof (cases "map_of m k")
  case None
  then show ?thesis by (auto simp add: obj_get_def obj_set_def set_obj_insert)
next
  case (Some a)
  have "snd ` set (map (\<lambda>(k', v'). if k' = k then (k', v) else (k', v')) m) \<subseteq> insert v (snd ` set m)"
    by (induction m) (auto split: if_splits)
  then show ?thesis using Some by (simp add: obj_get_def obj_set_def)
qed

lemma zero_fold_get:
  "obj_get (foldl (\<lambda>m player. obj_set m (p_id player) 0) m0 ps) k
   = (if k \<in> p_id ` set ps then Some 0 else obj_get m0 k)"
  by (induction ps arbitrary: m0) (auto simp: obj_get_obj_set)

lemma zero_fold_keys:
  "fst ` set (foldl (\<lambda>m player. obj_set m (p_id player) 0) m0 ps) = fst ` set m0 \<union> p_id ` set ps"
  by (induction ps arbitrary: m0) (auto simp: keys_obj_set)

lemma zero_fold_values:
  "snd ` set (foldl (\<lambda>m player. obj_set m (p_id player) 0) m0 ps) \<subseteq> insert 0 (snd ` set m0)"
proof (induction ps arbitrary: m0)
  case Nil
  then show ?case by auto
next
  case (Cons p ps)
  have "snd ` set (foldl (\<lambda>m player. obj_set m (p_id player) 0) (obj_set m0 (p_id p) 0) ps)
        \<subseteq> insert 0 (snd ` set (obj_set m0 (p_id p) 0))"
    by (rule Cons.IH)
  also have "\<dots> \<subseteq> insert 0 (snd ` set m0)"
    using values_obj_set [of m0 "p_id p" 0] by auto
  finally show ?case by simp
qed

lemma obj_get_zeroScores:
  "obj_get (zeroScores ps) k = (if k \<in> p_id ` set ps then Some 0 else None)"
  by (simp add: zeroScores_def zero_fold_get) (simp add: obj_get_def)

lemma keys_zeroScores: "fst ` set (zeroScores ps) = p_id ` set ps"
  by (simp add: zeroScores_def zero_fold_keys)

lemma values_zeroScores: "snd ` set (zeroScores ps) \<subseteq> {0}"
  using zero_fold_values [of "[]" ps] by (simp add: zeroScores_def)

lemma entries_zeroScores:
  "(k, v) \<in> set (zeroScores ps) \<Longrightarrow> v = 0 \<and> k \<in> p_id ` set ps"
proof -
  assume m: "(k, v) \<in> set (zeroScores ps)"
  then have "v \<in> snd ` set (zeroScores ps)" and "k \<in> fst ` set (zeroScores ps)"
    by force+
  then show ?thesis using values_zeroScores [of ps] keys_zeroScores [of ps] by auto
qed

lemma foldl_score_sum:
  "foldl (\<lambda>sum rs. sum + score rs) a xs = a + sum_list (map score xs)"
  by (induction xs arbitrary: a) auto

section \<open>The sample game, evaluated\<close>

lemmas web_eval = run_def web_init_def togglePlayerSelection_def createGame_def trim_def
  is_space_def zeroScores_def obj_set_def obj_get_def key_before_def array_index_def
  is_digit_def digits_value_def updateRoundScore_def finishRound_def resetGame_web_def Let_def
  alice_def bob_def charlie_def sample_setup_def sample_game_def sample_state_def

lemma sample_setup_run:
  "run sample_setup web_init
   = web_init\<lparr>games := [sample_game], currentGame := Some sample_game,
              currentRoundScores := [(''1'', 0), (''2'', 0)]\<rparr>"
  by (simp add: web_eval)

lemma sample_state_run:
  "run (sample_setup @ [UpdateRoundScore ''1'' 5, UpdateRoundScore ''2'' 3]) web_init = sample_state"
  by (simp add: web_eval)

section \<open>Committing a round\<close>

lemma rounds_wf_Nil: "rounds_wf []"
  by (simp add: rounds_wf_def)

lemma rounds_wf_snoc:
  "rounds_wf rs \<Longrightarrow> number r = length rs + 1 \<Longrightarrow> total r = sum_list (map score (scores r))
   \<Longrightarrow> rounds_wf (rs @ [r])"
  by (auto simp: rounds_wf_def nth_append less_Suc_eq)

lemma ledger_inv_init: "ledger_inv web_init"
  by (simp add: ledger_inv_def web_init_def)

lemma score_of_entry: "score \<circ> (\<lambda>(pid, sc). \<lparr>playerId = pid, score = sc\<rparr>) = snd"
  by (auto simp: fun_eq_iff)

lemma entry_of_score:
  "(\<lambda>rs. (playerId rs, score rs)) \<circ> (\<lambda>(pid, sc). \<lparr>playerId = pid, score = sc\<rparr>) = id"
  by (auto simp: fun_eq_iff)

lemma finishRound_Some:
  "currentGame st = Some game \<Longrightarrow>
   finishRound now st =
     st\<lparr>currentGame := Some (game\<lparr>rounds := rounds game @
              [\<lparr>r_id = now, number = length (rounds game) + 1,
                scores = map (\<lambda>(pid, sc). \<lparr>playerId = pid, score = sc\<rparr>) (currentRoundScores st),
                total = sum_list (map snd (currentRoundScores st))\<rparr>]\<rparr>),
        games := map (\<lambda>g. if g_id g = g_id game
                 then game\<lparr>rounds := rounds game @
              [\<lparr>r_id = now, number = length (rounds game) + 1,
                scores = map (\<lambda>(pid, sc). \<lparr>playerId = pid, score = sc\<rparr>) (currentRoundScores st),
                total = sum_list (map snd (currentRoundScores st))\<rparr>]\<rparr> else g) (games st),
        currentRoundScores := zeroScores (g_players game)\<rparr>"
  by (simp add: finishRound_def Let_def foldl_score_sum score_of_entry)

lemma ledger_inv_finishRound: "ledger_inv st \<Longrightarrow> ledger_inv (finishRound now st)"
proof (cases "currentGame st")
  case None
  then show "ledger_inv st \<Longrightarrow> ?thesis" by (simp add: finishRound_def)
next
  case (Some game)
  assume inv: "ledger_inv st"
  let ?r = "\<lparr>r_id = now, number = length (rounds game) + 1,
                scores = map (\<lambda>(pid, sc). \<lparr>playerId = pid, score = sc\<rparr>) (currentRoundScores st),
                total = sum_list (map snd (currentRoundScores st))\<rparr>"
  from inv Some have "rounds_wf (rounds game)" by (simp add: ledger_inv_def)
  then have "rounds_wf (rounds game @ [?r])"
    by (rule rounds_wf_snoc) (simp_all add: score_of_entry)
  with inv show ?thesis
    by (auto simp: finishRound_Some [OF Some] ledger_inv_def)
qed

lemma ledger_inv_resetGame: "ledger_inv st \<Longrightarrow> ledger_inv (resetGame_web st)"
  by (cases "currentGame st") (auto simp: resetGame_web_def ledger_inv_def rounds_wf_Nil Let_def)

lemma ledger_inv_createGame: "ledger_inv st \<Longrightarrow> ledger_inv (createGame now date st)"
  by (auto simp: createGame_def ledger_inv_def rounds_wf_Nil Let_def)

lemma ledger_inv_selectRecentGame: "ledger_inv st \<Longrightarrow> ledger_inv (selectRecentGame i st)"
proof -
  assume inv: "ledger_inv st"
  let ?recent = "rev (drop (length (games st) - 5) (games st))"
  have "i < length ?recent \<Longrightarrow> ?recent ! i \<in> set (games st)"
    using nth_mem [of i ?recent] set_drop_subset [of "length (games st) - 5" "games st"]
    by auto
  with inv show ?thesis
    by (auto simp: selectRecentGame_def ledger_inv_def Let_def)
qed

lemma ledger_inv_handle: "ledger_inv st \<Longrightarrow> ledger_inv (handle e st)"
proof (cases e)
  case (FinishRound now)
  then show "ledger_inv st \<Longrightarrow> ?thesis" by (simp add: ledger_inv_finishRound)
next
  case ResetGame
  then show "ledger_inv st \<Longrightarrow> ?thesis" by (simp add: ledger_inv_resetGame)
next
  case (CreateGame now date)
  then show "ledger_inv st \<Longrightarrow> ?thesis" by (simp add: ledger_inv_createGame)
next
  case (SelectRecentGame i)
  then show "ledger_inv st \<Longrightarrow> ?thesis" by (simp add: ledger_inv_selectRecentGame)
qed (auto simp: ledger_inv_def togglePlayerSelection_def addPlayer_web_def updateRoundScore_def Let_def)

lemma ledger_inv_run: "ledger_inv st \<Longrightarrow> ledger_inv (run evs st)"
  unfolding run_def by (induction evs arbitrary: st) (auto simp: ledger_inv_handle)

text \<open>
  Claim C1. When a game is open, \<open>finishRound\<close> appends one new round to the
  game's history; its number is the count of the rounds committed before plus 1, its
  scores are the entries of the pending object and its total is the sum of the pending
  values; afterwards the pending object holds exactly the ids of the game's players,
  each at 0. Hence, after every sequence of user actions from the initial state, every
  round of the open game has a total equal to the sum of its scores and a number equal
  to its 1-based position in the history.
\<close>

theorem finishRound_commits_round:
  "(currentGame st = Some game \<longrightarrow>
      (\<exists>newRound.
          currentGame (finishRound now st) = Some (game\<lparr>rounds := rounds game @ [newRound]\<rparr>)
        \<and> number newRound = length (rounds game) + 1
        \<and> map (\<lambda>rs. (playerId rs, score rs)) (scores newRound) = currentRoundScores st
        \<and> total newRound = sum_list (map snd (currentRoundScores st))
        \<and> total newRound = sum_list (map score (scores newRound)))
      \<and> (\<forall>p \<in> set (g_players game).
            obj_get (currentRoundScores (finishRound now st)) (p_id p) = Some 0)
      \<and> (\<forall>(k, v) \<in> set (currentRoundScores (finishRound now st)).
            v = 0 \<and> k \<in> p_id ` set (g_players game)))
   \<and> (\<forall>game'. currentGame (run evs web_init) = Some game' \<longrightarrow>
        (\<forall>i < length (rounds game').
            number (rounds game' ! i) = i + 1
          \<and> total (rounds game' ! i) = sum_list (map score (scores (rounds game' ! i)))))"
proof -
  have commit: "(\<exists>newRound.
          currentGame (finishRound now st) = Some (game\<lparr>rounds := rounds game @ [newRound]\<rparr>)
        \<and> number newRound = length (rounds game) + 1
        \<and> map (\<lambda>rs. (playerId rs, score rs)) (scores newRound) = currentRoundScores st
        \<and> total newRound = sum_list (map snd (currentRoundScores st))
        \<and> total newRound = sum_list (map score (scores newRound)))
      \<and> (\<forall>p \<in> set (g_players game).
            obj_get (currentRoundScores (finishRound now st)) (p_id p) = Some 0)
      \<and> (\<forall>(k, v) \<in> set (currentRoundScores (finishRound now st)).
            v = 0 \<and> k \<in> p_id ` set (g_players game))"
    if cur: "currentGame st = Some game"
  proof -
    let ?r = "\<lparr>r_id = now, number = length (rounds game) + 1,
                scores = map (\<lambda>(pid, sc). \<lparr>playerId = pid, score = sc\<rparr>) (currentRoundScores st),
                total = sum_list (map snd (currentRoundScores st))\<rparr>"
    have "currentGame (finishRound now st) = Some (game\<lparr>rounds := rounds game @ [?r]\<rparr>)
        \<and> number ?r = length (rounds game) + 1
        \<and> map (\<lambda>rs. (playerId rs, score rs)) (scores ?r) = currentRoundScores st
        \<and> total ?r = sum_list (map snd (currentRoundScores st))
        \<and> total ?r = sum_list (map score (scores ?r))"
      by (simp add: finishRound_Some [OF cur] score_of_entry entry_of_score)
    then have new: "\<exists>newRound.
          currentGame (finishRound now st) = Some (game\<lparr>rounds := rounds game @ [newRound]\<rparr>)
        \<and> number newRound = length (rounds game) + 1
        \<and> map (\<lambda>rs. (playerId rs, score rs)) (scores newRound) = currentRoundScores st
        \<and> total newRound = sum_list (map snd (currentRoundScores st))
        \<and> total newRound = sum_list (map score (scores newRound))"
      by blast
    have zero: "\<forall>p \<in> set (g_players game).
            obj_get (currentRoundScores (finishRound now st)) (p_id p) = Some 0"
      by (simp add: finishRound_Some [OF cur] obj_get_zeroScores)
    have only: "\<forall>(k, v) \<in> set (currentRoundScores (finishRound now st)).
            v = 0 \<and> k \<in> p_id ` set (g_players game)"
      using entries_zeroScores [of _ _ "g_players game"]
      by (auto simp: finishRound_Some [OF cur])
    from new zero only show ?thesis by blast
  qed
  have history: "\<forall>i < length (rounds game').
            number (rounds game' ! i) = i + 1
          \<and> total (rounds game' ! i) = sum_list (map score (scores (rounds game' ! i)))"
    if "currentGame (run evs web_init) = Some game'" for game'
  proof -
    have "ledger_inv (run evs web_init)"
      by (rule ledger_inv_run [OF ledger_inv_init])
    with that have "rounds_wf (rounds game')" by (simp add: ledger_inv_def)
    then show ?thesis by (simp add: rounds_wf_def)
  qed
  from commit history show ?thesis by blast
qed

theorem finishRound_commits_round_witness:
  "currentGame sample_state = Some sample_game
   \<and> (\<exists>newRound.
         currentGame (finishRound ''101'' sample_state) = Some (sample_game\<lparr>rounds := [newRound]\<rparr>)
       \<and> number newRound = 1 \<and> total newRound = 8)
   \<and> obj_get (currentRoundScores (finishRound ''101'' sample_state)) ''2'' = Some 0
   \<and> (\<exists>game'.
         currentGame (run (sample_setup @ [UpdateRoundScore ''1'' 5, UpdateRoundScore ''2'' 3,
                            FinishRound ''101'']) web_init) = Some game'
       \<and> length (rounds game') = 1
       \<and> number (rounds game' ! 0) = 1
       \<and> total (rounds game' ! 0) = sum_list (map score (scores (rounds game' ! 0))))"
proof -
  let ?evs = "sample_setup @ [UpdateRoundScore ''1'' 5, UpdateRoundScore ''2'' 3, FinishRound ''101'']"
  let ?g = "sample_game\<lparr>rounds := [\<lparr>r_id = ''101'', number = 1,
                 scores = [\<lparr>playerId = ''1'', score = 5\<rparr>, \<lparr>playerId = ''2'', score = 3\<rparr>],
                 total = 8\<rparr>]\<rparr>"
  note fact = finishRound_commits_round [of sample_state sample_game "''101''" ?evs]
  have cur: "currentGame sample_state = Some sample_game"
    by (simp add: sample_state_def)
  have hist: "currentGame (run ?evs web_init) = Some ?g"
    by (simp add: web_eval)
  from fact cur have "\<exists>newRound.
       currentGame (finishRound ''101'' sample_state)
         = Some (sample_game\<lparr>rounds := rounds sample_game @ [newRound]\<rparr>)
     \<and> number newRound = length (rounds sample_game) + 1
     \<and> total newRound = sum_list (map snd (currentRoundScores sample_state))"
    by blast
  then have new: "\<exists>newRound.
         currentGame (finishRound ''101'' sample_state) = Some (sample_game\<lparr>rounds := [newRound]\<rparr>)
       \<and> number newRound = 1 \<and> total newRound = 8"
    by (simp add: sample_state_def sample_game_def)
  from fact cur have "\<forall>p \<in> set (g_players sample_game).
      obj_get (currentRoundScores (finishRound ''101'' sample_state)) (p_id p) = Some 0"
    by blast
  then have zero: "obj_get (currentRoundScores (finishRound ''101'' sample_state)) ''2'' = Some 0"
    by (simp add: sample_game_def bob_def)
  from fact hist have "\<forall>i < length (rounds ?g).
      number (rounds ?g ! i) = i + 1
      \<and> total (rounds ?g ! i) = sum_list (map score (scores (rounds ?g ! i)))"
    by blast
  then have "number (rounds ?g ! 0) = 1
      \<and> total (rounds ?g ! 0) = sum_list (map score (scores (rounds ?g ! 0)))"
    by simp
  with hist have old: "\<exists>game'. currentGame (run ?evs web_init) = Some game'
       \<and> length (rounds game') = 1
       \<and> number (rounds game' ! 0) = 1
       \<and> total (rounds game' ! 0) = sum_list (map score (scores (rounds game' ! 0)))"
    by simp
  from cur new zero old show ?thesis by blast
qed

section \<open>Resetting a game\<close>

lemma resetGame_web_Some:
  "currentGame st = Some game \<Longrightarrow>
   resetGame_web st =
     st\<lparr>currentGame := Some (game\<lparr>rounds := []\<rparr>),
        games := map (\<lambda>g. if g_id g = g_id game then game\<lparr>rounds := []\<rparr> else g) (games st),
        currentRoundScores := zeroScores (g_players game)\<rparr>"
  by (simp add: resetGame_web_def Let_def)

lemma resetGame_mobile_players:
  "map m_id (m_players (resetGame_mobile mst)) = map m_id (m_players mst)
   \<and> map m_name (m_players (resetGame_mobile mst)) = map m_name (m_players mst)
   \<and> (\<forall>p \<in> set (m_players (resetGame_mobile mst)). m_score p = 0)"
  by (auto simp: resetGame_mobile_def comp_def)

text \<open>
  Claim C8. The web \<open>resetGame\<close> on an open game empties the game's round history
  and leaves the rest of the game, its player sequence included, as it was; the pending
  object then holds exactly the ids of the game's players, each at 0, and the next
  committed round has number 1. The mobile \<open>resetGame\<close> keeps the ids, names and
  order of the players, sets every score to 0 and the round counter to 1.
\<close>

theorem resetGame_clears_rounds:
  "(currentGame st = Some game \<longrightarrow>
      currentGame (resetGame_web st) = Some (game\<lparr>rounds := []\<rparr>)
      \<and> (\<forall>p \<in> set (g_players game).
            obj_get (currentRoundScores (resetGame_web st)) (p_id p) = Some 0)
      \<and> (\<forall>(k, v) \<in> set (currentRoundScores (resetGame_web st)).
            v = 0 \<and> k \<in> p_id ` set (g_players game))
      \<and> players (resetGame_web st) = players st
      \<and> (\<forall>g. currentGame (finishRound now (resetGame_web st)) = Some g \<longrightarrow>
             map number (rounds g) = [1]))
   \<and> map m_id (m_players (resetGame_mobile mst)) = map m_id (m_players mst)
   \<and> map m_name (m_players (resetGame_mobile mst)) = map m_name (m_players mst)
   \<and> (\<forall>p \<in> set (m_players (resetGame_mobile mst)). m_score p = 0)
   \<and> round (resetGame_mobile mst) = 1"
proof -
  have web: "currentGame (resetGame_web st) = Some (game\<lparr>rounds := []\<rparr>)
      \<and> (\<forall>p \<in> set (g_players game).
            obj_get (currentRoundScores (resetGame_web st)) (p_id p) = Some 0)
      \<and> (\<forall>(k, v) \<in> set (currentRoundScores (resetGame_web st)).
            v = 0 \<and> k \<in> p_id ` set (g_players game))
      \<and> players (resetGame_web st) = players st
      \<and> (\<forall>g. currentGame (finishRound now (resetGame_web st)) = Some g \<longrightarrow>
             map number (rounds g) = [1])"
    if cur: "currentGame st = Some game"
  proof -
    have a: "currentGame (resetGame_web st) = Some (game\<lparr>rounds := []\<rparr>)"
      by (simp add: resetGame_web_Some [OF cur])
    have b: "\<forall>p \<in> set (g_players game).
            obj_get (currentRoundScores (resetGame_web st)) (p_id p) = Some 0"
      by (simp add: resetGame_web_Some [OF cur] obj_get_zeroScores)
    have c: "\<forall>(k, v) \<in> set (currentRoundScores (resetGame_web st)).
            v = 0 \<and> k \<in> p_id ` set (g_players game)"
      using entries_zeroScores [of _ _ "g_players game"]
      by (auto simp: resetGame_web_Some [OF cur])
    have d: "players (resetGame_web st) = players st"
      by (simp add: resetGame_web_Some [OF cur])
    have e: "\<forall>g. currentGame (finishRound now (resetGame_web st)) = Some g \<longrightarrow>
             map number (rounds g) = [1]"
      by (simp add: finishRound_Some [OF a])
    from a b c d e show ?thesis by blast
  qed
  have mobile: "map m_id (m_players (resetGame_mobile mst)) = map m_id (m_players mst)
   \<and> map m_name (m_players (resetGame_mobile mst)) = map m_name (m_players mst)
   \<and> (\<forall>p \<in> set (m_players (resetGame_mobile mst)). m_score p = 0)"
    by (rule resetGame_mobile_players)
  have rnd: "round (resetGame_mobile mst) = 1"
    by (simp add: resetGame_mobile_def)
  from web mobile rnd show ?thesis by blast
qed

theorem resetGame_clears_rounds_witness:
  "currentGame (finishRound ''101'' sample_state)
     = Some (sample_game\<lparr>rounds := [\<lparr>r_id = ''101'', number = 1,
                 scores = [\<lparr>playerId = ''1'', score = 5\<rparr>, \<lparr>playerId = ''2'', score = 3\<rparr>],
                 total = 8\<rparr>]\<rparr>)
   \<and> currentGame (resetGame_web (finishRound ''101'' sample_state)) = Some sample_game
   \<and> obj_get (currentRoundScores (resetGame_web (finishRound ''101'' sample_state))) ''1'' = Some 0
   \<and> map m_id (m_players (resetGame_mobile sample_mobile)) = [''7'', ''8'']
   \<and> map m_name (m_players (resetGame_mobile sample_mobile)) = [''Alice'', ''Bob'']
   \<and> map m_score (m_players (resetGame_mobile sample_mobile)) = [0, 0]
   \<and> round (resetGame_mobile sample_mobile) = 1"
proof -
  let ?st = "finishRound ''101'' sample_state"
  let ?g = "sample_game\<lparr>rounds := [\<lparr>r_id = ''101'', number = 1,
                 scores = [\<lparr>playerId = ''1'', score = 5\<rparr>, \<lparr>playerId = ''2'', score = 3\<rparr>],
                 total = 8\<rparr>]\<rparr>"
  note fact = resetGame_clears_rounds [of ?st ?g "''102''" sample_mobile]
  have cur: "currentGame ?st = Some ?g"
    by (simp add: web_eval)
  from fact cur have "currentGame (resetGame_web ?st) = Some (?g\<lparr>rounds := []\<rparr>)
      \<and> (\<forall>p \<in> set (g_players ?g). obj_get (currentRoundScores (resetGame_web ?st)) (p_id p) = Some 0)"
    by blast
  then have web: "currentGame (resetGame_web ?st) = Some sample_game
      \<and> obj_get (currentRoundScores (resetGame_web ?st)) ''1'' = Some 0"
    by (simp add: sample_game_def alice_def)
  from fact have ids: "map m_id (m_players (resetGame_mobile sample_mobile)) = map m_id (m_players sample_mobile)
      \<and> map m_name (m_players (resetGame_mobile sample_mobile)) = map m_name (m_players sample_mobile)
      \<and> round (resetGame_mobile sample_mobile) = 1"
    by blast
  from fact have "\<forall>p \<in> set (m_players (resetGame_mobile sample_mobile)). m_score p = 0"
    by blast
  then have "map m_score (m_players (resetGame_mobile sample_mobile))
      = map (\<lambda>p. 0) (m_players (resetGame_mobile sample_mobile))"
    by (intro map_cong) simp_all
  also have "\<dots> = replicate (length (map m_id (m_players (resetGame_mobile sample_mobile)))) 0"
    by (simp add: map_replicate_const)
  also have "\<dots> = [0, 0]"
    using ids by (simp add: sample_mobile_def)
  finally have zeros: "map m_score (m_players (resetGame_mobile sample_mobile)) = [0, 0]" .
  from cur web ids zeros show ?thesis
    by (simp add: sample_mobile_def)
qed

section \<open>The winner\<close>

lemma scan_highest:
  fixes f :: "'a \<Rightarrow> int"
  assumes "ps \<noteq> []"
  shows "\<exists>i < length ps.
           foldl (\<lambda>(highestScore, winner) player.
                    if exceeds (f player) highestScore then (Some (f player), Some player)
                    else (highestScore, winner)) (None, None) ps
             = (Some (f (ps ! i)), Some (ps ! i))
           \<and> (\<forall>j < length ps. f (ps ! j) \<le> f (ps ! i))
           \<and> (\<forall>j < i. f (ps ! j) < f (ps ! i))"
  using assms
proof (induction ps rule: rev_induct)
  case Nil
  then show ?case by simp
next
  case (snoc x qs)
  let ?step = "\<lambda>(highestScore, winner) player.
                    if exceeds (f player) highestScore then (Some (f player), Some player)
                    else (highestScore, winner)"
  show ?case
  proof (cases "qs = []")
    case True
    then show ?thesis by (simp add: exceeds_def)
  next
    case False
    from snoc.IH [OF False] obtain i where i: "i < length qs"
      and res: "foldl ?step (None, None) qs = (Some (f (qs ! i)), Some (qs ! i))"
      and mx: "\<forall>j < length qs. f (qs ! j) \<le> f (qs ! i)"
      and fst: "\<forall>j < i. f (qs ! j) < f (qs ! i)"
      by blast
    show ?thesis
    proof (cases "f x > f (qs ! i)")
      case True
      have "foldl ?step (None, None) (qs @ [x]) = (Some (f x), Some x)"
        using res True by (simp add: exceeds_def)
      moreover have "\<forall>j < length (qs @ [x]). f ((qs @ [x]) ! j) \<le> f x"
        using mx True by (fastforce simp: nth_append less_Suc_eq)
      moreover have "\<forall>j < length qs. f ((qs @ [x]) ! j) < f x"
        using mx True by (fastforce simp: nth_append)
      ultimately show ?thesis
        by (intro exI [of _ "length qs"]) simp
    next
      case False
      have "foldl ?step (None, None) (qs @ [x]) = (Some (f (qs ! i)), Some (qs ! i))"
        using res False by (simp add: exceeds_def)
      moreover have "\<forall>j < length (qs @ [x]). f ((qs @ [x]) ! j) \<le> f (qs ! i)"
        using mx False by (auto simp: nth_append less_Suc_eq)
      moreover have "\<forall>j < i. f ((qs @ [x]) ! j) < f (qs ! i)"
        using fst i by (auto simp: nth_append)
      ultimately show ?thesis
        using i by (intro exI [of _ i]) (simp add: nth_append)
    qed
  qed
qed

lemma reduce_lowest:
  fixes f :: "'a \<Rightarrow> int"
  assumes "ps \<noteq> []"
  shows "\<exists>i < length ps.
           foldl (\<lambda>best player. if f player < f best then player else best) (hd ps) (tl ps)
             = ps ! i
           \<and> (\<forall>j < length ps. f (ps ! i) \<le> f (ps ! j))
           \<and> (\<forall>j < i. f (ps ! i) < f (ps ! j))"
  using assms
proof (induction ps rule: rev_induct)
  case Nil
  then show ?case by simp
next
  case (snoc x qs)
  let ?step = "\<lambda>best player. if f player < f best then player else best"
  show ?case
  proof (cases "qs = []")
    case True
    then show ?thesis by simp
  next
    case False
    from snoc.IH [OF False] obtain i where i: "i < length qs"
      and res: "foldl ?step (hd qs) (tl qs) = qs ! i"
      and mn: "\<forall>j < length qs. f (qs ! i) \<le> f (qs ! j)"
      and fst: "\<forall>j < i. f (qs ! i) < f (qs ! j)"
      by blast
    have unfold: "foldl ?step (hd (qs @ [x])) (tl (qs @ [x])) = ?step (qs ! i) x"
      using False res by simp
    show ?thesis
    proof (cases "f x < f (qs ! i)")
      case True
      have "foldl ?step (hd (qs @ [x])) (tl (qs @ [x])) = (qs @ [x]) ! length qs"
        using unfold True by simp
      moreover have "\<forall>j < length (qs @ [x]). f x \<le> f ((qs @ [x]) ! j)"
        using mn True by (fastforce simp: nth_append less_Suc_eq)
      moreover have "\<forall>j < length qs. f x < f ((qs @ [x]) ! j)"
        using mn True by (fastforce simp: nth_append)
      ultimately show ?thesis
        by (intro exI [of _ "length qs"]) simp
    next
      case False
      have "foldl ?step (hd (qs @ [x])) (tl (qs @ [x])) = (qs @ [x]) ! i"
        using unfold False i by (simp add: nth_append)
      moreover have "\<forall>j < length (qs @ [x]). f ((qs @ [x]) ! i) \<le> f ((qs @ [x]) ! j)"
        using mn False i by (auto simp: nth_append less_Suc_eq)
      moreover have "\<forall>j < i. f ((qs @ [x]) ! i) < f ((qs @ [x]) ! j)"
        using fst i by (auto simp: nth_append)
      ultimately show ?thesis
        using i by (intro exI [of _ i]) simp
    qed
  qed
qed

lemma getWinner_mobile_hearts:
  assumes "m_players mst \<noteq> []" and "gt_id (selectedGameType mst) = ''hearts''"
  shows "\<exists>i < length (m_players mst).
           getWinner_mobile mst = Some (m_players mst ! i)
           \<and> (\<forall>j < length (m_players mst).
                  m_score (m_players mst ! i) \<le> m_score (m_players mst ! j))
           \<and> (\<forall>j < i. m_score (m_players mst ! i) < m_score (m_players mst ! j))"
proof -
  from assms(1) obtain first rest where ps: "m_players mst = first # rest"
    by (cases "m_players mst") auto
  have "getWinner_mobile mst
        = Some (foldl (\<lambda>best player. if m_score player < m_score best then player else best)
                  (hd (m_players mst)) (tl (m_players mst)))"
    using ps assms(2) by (simp add: getWinner_mobile_def)
  with reduce_lowest [OF assms(1), of m_score] show ?thesis by simp
qed

lemma getWinner_mobile_other:
  assumes "m_players mst \<noteq> []" and "gt_id (selectedGameType mst) \<noteq> ''hearts''"
  shows "\<exists>i < length (m_players mst).
           getWinner_mobile mst = Some (m_players mst ! i)
           \<and> (\<forall>j < length (m_players mst).
                  m_score (m_players mst ! j) \<le> m_score (m_players mst ! i))
           \<and> (\<forall>j < i. m_score (m_players mst ! j) < m_score (m_players mst ! i))"
proof -
  from assms(1) obtain first rest where ps: "m_players mst = first # rest"
    by (cases "m_players mst") auto
  have "getWinner_mobile mst
        = Some (foldl (\<lambda>best player. if - m_score player < - m_score best then player else best)
                  (hd (m_players mst)) (tl (m_players mst)))"
    using ps assms(2) by (simp add: getWinner_mobile_def)
  with reduce_lowest [OF assms(1), of "\<lambda>p. - m_score p"] show ?thesis by simp
qed

lemma getWinner_web_first_highest:
  assumes "currentGame st = Some game" and "rounds game \<noteq> []" and "g_players game \<noteq> []"
  shows "\<exists>i < length (g_players game).
           getWinner_web st = Some (g_players game ! i)
           \<and> (\<forall>j < length (g_players game).
                  getPlayerTotalScore st (p_id (g_players game ! j))
                    \<le> getPlayerTotalScore st (p_id (g_players game ! i)))
           \<and> (\<forall>j < i. getPlayerTotalScore st (p_id (g_players game ! j))
                    < getPlayerTotalScore st (p_id (g_players game ! i)))"
proof -
  let ?f = "\<lambda>p. getPlayerTotalScore st (p_id p)"
  from scan_highest [OF assms(3), of ?f] obtain i where i: "i < length (g_players game)"
    and res: "foldl (\<lambda>(highestScore, winner) player.
                    if exceeds (?f player) highestScore then (Some (?f player), Some player)
                    else (highestScore, winner)) (None, None) (g_players game)
             = (Some (?f (g_players game ! i)), Some (g_players game ! i))"
    and mx: "\<forall>j < length (g_players game). ?f (g_players game ! j) \<le> ?f (g_players game ! i)"
    and fst: "\<forall>j < i. ?f (g_players game ! j) < ?f (g_players game ! i)"
    by blast
  have "getWinner_web st = Some (g_players game ! i)"
    using assms(1,2) res by (simp add: getWinner_web_def Let_def)
  with i mx fst show ?thesis by blast
qed

text \<open>
  Claim C2, as amended. In the web variant \<open>getWinner\<close> returns \<open>null\<close> for every
  state whose open game has no committed round, whatever the pending scores are. The
  mobile variant has no committed rounds: its \<open>getWinner\<close> returns \<open>null\<close> exactly
  when the player list is empty.
\<close>

theorem getWinner_none:
  "(currentGame st = Some game \<longrightarrow> rounds game = [] \<longrightarrow>
      getWinner_web (st\<lparr>currentRoundScores := pending\<rparr>) = None)
   \<and> ((getWinner_mobile mst = None) = (m_players mst = []))"
  by (simp add: getWinner_web_def getWinner_mobile_def split: list.split)

theorem getWinner_none_witness:
  "currentGame sample_state = Some sample_game \<and> rounds sample_game = []
   \<and> getWinner_web (sample_state\<lparr>currentRoundScores := [(''1'', 5), (''2'', 3)]\<rparr>) = None"
proof -
  have cur: "currentGame sample_state = Some sample_game"
    by (simp add: sample_state_def)
  have none: "rounds sample_game = []"
    by (simp add: sample_game_def)
  from getWinner_none [of sample_state sample_game "[(''1'', 5), (''2'', 3)]"] cur none
  show ?thesis by blast
qed

text \<open>
  The claim as stated fails on the mobile variant: in the first round, with no round
  finished, \<open>getWinner\<close> already names Bob.
\<close>

theorem getWinner_mobile_first_round:
  "\<not> (round spades_state = 1 \<longrightarrow> getWinner_mobile spades_state = None)"
  by (simp add: spades_state_def mobile_init_def getWinner_mobile_def gameTypes_def)

lemma enough_players_selectRecentGame:
  "enough_players st \<Longrightarrow> enough_players (selectRecentGame i st)"
proof -
  assume inv: "enough_players st"
  let ?recent = "rev (drop (length (games st) - 5) (games st))"
  have "i < length ?recent \<Longrightarrow> ?recent ! i \<in> set (games st)"
    using nth_mem [of i ?recent] set_drop_subset [of "length (games st) - 5" "games st"]
    by auto
  with inv show ?thesis
    by (auto simp: selectRecentGame_def enough_players_def Let_def)
qed

lemma enough_players_handle: "enough_players st \<Longrightarrow> enough_players (handle e st)"
proof (cases e)
  case (FinishRound now)
  then show "enough_players st \<Longrightarrow> ?thesis"
    by (cases "currentGame st") (auto simp: finishRound_def enough_players_def Let_def)
next
  case ResetGame
  then show "enough_players st \<Longrightarrow> ?thesis"
    by (cases "currentGame st") (auto simp: resetGame_web_def enough_players_def Let_def)
next
  case (CreateGame now date)
  then show "enough_players st \<Longrightarrow> ?thesis"
    by (auto simp: createGame_def enough_players_def Let_def)
next
  case (SelectRecentGame i)
  then show "enough_players st \<Longrightarrow> ?thesis" by (simp add: enough_players_selectRecentGame)
qed (auto simp: enough_players_def togglePlayerSelection_def addPlayer_web_def
      updateRoundScore_def Let_def)

lemma enough_players_run: "enough_players st \<Longrightarrow> enough_players (run evs st)"
  unfolding run_def by (induction evs arbitrary: st) (auto simp: enough_players_handle)

lemma open_game_has_players:
  "currentGame (run evs web_init) = Some game \<Longrightarrow> g_players game \<noteq> []"
proof -
  assume cur: "currentGame (run evs web_init) = Some game"
  have "enough_players web_init"
    by (simp add: enough_players_def web_init_def)
  then have "enough_players (run evs web_init)"
    by (rule enough_players_run)
  with cur have "2 \<le> length (g_players game)"
    by (simp add: enough_players_def)
  then show ?thesis by auto
qed

lemma tie_totals:
  "getPlayerTotalScore tie_state ''1'' = 10"
  "getPlayerTotalScore tie_state ''2'' = 8"
  "getPlayerTotalScore tie_state ''3'' = 10"
  by (simp_all add: getPlayerTotalScore_def tie_state_def tie_game_def)

lemma foldl_total_sum:
  fixes a :: int
  shows "foldl (\<lambda>tot rnd. tot + f rnd) a rs = a + sum_list (map f rs)"
  by (induction rs arbitrary: a) (simp_all add: add.assoc)

lemma getPlayerTotalScore_spec:
  "currentGame st = Some game \<Longrightarrow> getPlayerTotalScore st pid = totalScore_spec game pid"
  using foldl_total_sum [where f = "\<lambda>r. round_score r pid" and a = 0 and rs = "rounds game"]
  by (simp add: getPlayerTotalScore_def totalScore_spec_def round_score_def)

lemma two_rounds_run:
  "two_rounds_state
   = web_init\<lparr>games := [two_rounds_game], currentGame := Some two_rounds_game,
              currentRoundScores := [(''1'', 0), (''2'', 0)]\<rparr>"
  unfolding two_rounds_state_def two_rounds_game_def by (simp add: web_eval)

lemma two_rounds_totals:
  "totalScore_spec two_rounds_game ''1'' = 3" "totalScore_spec two_rounds_game ''2'' = 7"
  by (simp_all add: totalScore_spec_def round_score_def two_rounds_game_def)

lemma tie_spec_totals:
  "totalScore_spec tie_game ''1'' = 10" "totalScore_spec tie_game ''2'' = 8"
  "totalScore_spec tie_game ''3'' = 10"
  by (simp_all add: totalScore_spec_def round_score_def tie_game_def)

text \<open>
  Claim C3, as amended. The web variant has no goal: for every state whose open game
  has at least one committed round, \<open>getWinner\<close> returns the first player, in the
  order of the game's player sequence, whose total score is maximal, where the total
  score of a player is the sum of its scores over the committed rounds. In the mobile
  variant the winner is the first player whose score is minimal when the game type is
  Hearts (lowest wins), and the first player whose score is maximal for every other
  game type. The player lists are taken to be non-empty; in the web variant this holds
  for every game that is open after any sequence of user actions from the initial
  state.
\<close>

theorem getWinner_first_extremal:
  "(currentGame st = Some game \<longrightarrow>
      (\<forall>pid. getPlayerTotalScore st pid = totalScore_spec game pid)
      \<and> (rounds game \<noteq> [] \<longrightarrow> g_players game \<noteq> [] \<longrightarrow>
           (\<exists>i < length (g_players game).
               getWinner_web st = Some (g_players game ! i)
             \<and> (\<forall>j < length (g_players game).
                    totalScore_spec game (p_id (g_players game ! j))
                      \<le> totalScore_spec game (p_id (g_players game ! i)))
             \<and> (\<forall>j < i. totalScore_spec game (p_id (g_players game ! j))
                      < totalScore_spec game (p_id (g_players game ! i))))))
   \<and> (m_players mst \<noteq> [] \<longrightarrow>
      (\<exists>i < length (m_players mst).
           getWinner_mobile mst = Some (m_players mst ! i)
           \<and> (if gt_id (selectedGameType mst) = ''hearts''
              then (\<forall>j < length (m_players mst).
                      m_score (m_players mst ! i) \<le> m_score (m_players mst ! j))
                 \<and> (\<forall>j < i. m_score (m_players mst ! i) < m_score (m_players mst ! j))
              else (\<forall>j < length (m_players mst).
                      m_score (m_players mst ! j) \<le> m_score (m_players mst ! i))
                 \<and> (\<forall>j < i. m_score (m_players mst ! j) < m_score (m_players mst ! i)))))
   \<and> (\<forall>game'. currentGame (run evs web_init) = Some game' \<longrightarrow> g_players game' \<noteq> [])"
proof -
  have web: "(\<forall>pid. getPlayerTotalScore st pid = totalScore_spec game pid)
      \<and> (rounds game \<noteq> [] \<longrightarrow> g_players game \<noteq> [] \<longrightarrow>
           (\<exists>i < length (g_players game).
               getWinner_web st = Some (g_players game ! i)
             \<and> (\<forall>j < length (g_players game).
                    totalScore_spec game (p_id (g_players game ! j))
                      \<le> totalScore_spec game (p_id (g_players game ! i)))
             \<and> (\<forall>j < i. totalScore_spec game (p_id (g_players game ! j))
                      < totalScore_spec game (p_id (g_players game ! i)))))"
    if cur: "currentGame st = Some game"
    using getWinner_web_first_highest [OF cur]
    by (simp add: getPlayerTotalScore_spec [OF cur])
  have mobile: "\<exists>i < length (m_players mst).
           getWinner_mobile mst = Some (m_players mst ! i)
           \<and> (if gt_id (selectedGameType mst) = ''hearts''
              then (\<forall>j < length (m_players mst).
                      m_score (m_players mst ! i) \<le> m_score (m_players mst ! j))
                 \<and> (\<forall>j < i. m_score (m_players mst ! i) < m_score (m_players mst ! j))
              else (\<forall>j < length (m_players mst).
                      m_score (m_players mst ! j) \<le> m_score (m_players mst ! i))
                 \<and> (\<forall>j < i. m_score (m_players mst ! j) < m_score (m_players mst ! i)))"
    if ne: "m_players mst \<noteq> []"
  proof (cases "gt_id (selectedGameType mst) = ''hearts''")
    case True
    with getWinner_mobile_hearts [OF ne] show ?thesis by simp
  next
    case False
    with getWinner_mobile_other [OF ne] show ?thesis by simp
  qed
  from web mobile open_game_has_players [of evs] show ?thesis by blast
qed

theorem getWinner_first_extremal_witness:
  "currentGame two_rounds_state = Some two_rounds_game
   \<and> getPlayerTotalScore two_rounds_state ''1'' = 3
   \<and> getPlayerTotalScore two_rounds_state ''2'' = 7
   \<and> getWinner_web two_rounds_state = Some bob
   \<and> currentGame tie_state = Some tie_game
   \<and> getWinner_web tie_state = Some alice
   \<and> m_players hearts_state \<noteq> []
   \<and> getWinner_mobile hearts_state = Some \<lparr>m_id = ''8'', m_name = ''Bob'', m_score = 2\<rparr>
   \<and> currentGame (run sample_setup web_init) = Some sample_game
   \<and> g_players sample_game \<noteq> []"
proof -
  note lead = getWinner_first_extremal [of two_rounds_state two_rounds_game hearts_state sample_setup]
  note fact = getWinner_first_extremal [of tie_state tie_game hearts_state sample_setup]
  have opened: "currentGame (run sample_setup web_init) = Some sample_game"
    by (simp add: sample_setup_run)
  with fact have some: "g_players sample_game \<noteq> []"
    by blast
  have cur2: "currentGame two_rounds_state = Some two_rounds_game"
    by (simp add: two_rounds_run)
  have rs2: "rounds two_rounds_game \<noteq> []" and ps2: "g_players two_rounds_game = [alice, bob]"
    by (simp_all add: two_rounds_game_def)
  have ne2: "g_players two_rounds_game \<noteq> []" by (simp add: ps2)
  from lead [THEN conjunct1] cur2
  have "\<forall>pid. getPlayerTotalScore two_rounds_state pid = totalScore_spec two_rounds_game pid"
    by blast
  then have totals2: "getPlayerTotalScore two_rounds_state ''1'' = 3"
    "getPlayerTotalScore two_rounds_state ''2'' = 7"
    by (simp_all add: two_rounds_totals)
  from lead [THEN conjunct1] cur2 rs2 ne2
  obtain n where n: "n < length (g_players two_rounds_game)"
    and win2: "getWinner_web two_rounds_state = Some (g_players two_rounds_game ! n)"
    and top2: "\<forall>j < length (g_players two_rounds_game).
                 totalScore_spec two_rounds_game (p_id (g_players two_rounds_game ! j))
                   \<le> totalScore_spec two_rounds_game (p_id (g_players two_rounds_game ! n))"
    by blast
  from n have "n = 0 \<or> n = 1" by (simp add: ps2) arith
  then have "n = 1"
  proof (elim disjE)
    assume "n = 0"
    have "(1::nat) < length (g_players two_rounds_game)" by (simp add: ps2)
    with top2 \<open>n = 0\<close>
    have "totalScore_spec two_rounds_game (p_id (g_players two_rounds_game ! 1))
        \<le> totalScore_spec two_rounds_game (p_id (g_players two_rounds_game ! 0))"
      by blast
    then show ?thesis by (simp add: ps2 alice_def bob_def two_rounds_totals)
  next
    assume "n = 1"
    then show ?thesis .
  qed
  with win2 have web2: "getWinner_web two_rounds_state = Some bob" by (simp add: ps2)
  have cur: "currentGame tie_state = Some tie_game"
    by (simp add: tie_state_def)
  have rs: "rounds tie_game \<noteq> []" and ps: "g_players tie_game = [alice, bob, charlie]"
    by (simp_all add: tie_game_def)
  have ne: "g_players tie_game \<noteq> []" by (simp add: ps)
  from fact [THEN conjunct1] cur rs ne
  obtain i where i: "i < length (g_players tie_game)"
    and win: "getWinner_web tie_state = Some (g_players tie_game ! i)"
    and first: "\<forall>j < i. totalScore_spec tie_game (p_id (g_players tie_game ! j))
                    < totalScore_spec tie_game (p_id (g_players tie_game ! i))"
    by blast
  from i have "i = 0 \<or> i = 1 \<or> i = 2" by (simp add: ps) arith
  then have "i = 0"
  proof (elim disjE)
    assume "i = 0"
    then show ?thesis .
  next
    assume "i = 1"
    with first have "totalScore_spec tie_game (p_id (g_players tie_game ! 0))
        < totalScore_spec tie_game (p_id (g_players tie_game ! 1))"
      by simp
    then show ?thesis by (simp add: ps alice_def bob_def tie_spec_totals)
  next
    assume "i = 2"
    with first have "totalScore_spec tie_game (p_id (g_players tie_game ! 0))
        < totalScore_spec tie_game (p_id (g_players tie_game ! 2))"
      by simp
    then show ?thesis by (simp add: ps alice_def charlie_def tie_spec_totals)
  qed
  with win have web: "getWinner_web tie_state = Some alice" by (simp add: ps)
  have mps: "m_players hearts_state
      = [\<lparr>m_id = ''7'', m_name = ''Alice'', m_score = 4\<rparr>,
         \<lparr>m_id = ''8'', m_name = ''Bob'', m_score = 2\<rparr>,
         \<lparr>m_id = ''9'', m_name = ''Charlie'', m_score = 2\<rparr>]"
    and hearts: "gt_id (selectedGameType hearts_state) = ''hearts''"
    by (simp_all add: hearts_state_def mobile_init_def gameTypes_def)
  have mne: "m_players hearts_state \<noteq> []" by (simp add: mps)
  from fact [THEN conjunct2, THEN conjunct1] mne
  obtain k where k: "k < length (m_players hearts_state)"
    and mwin: "getWinner_mobile hearts_state = Some (m_players hearts_state ! k)"
    and ext: "if gt_id (selectedGameType hearts_state) = ''hearts''
              then (\<forall>j < length (m_players hearts_state).
                      m_score (m_players hearts_state ! k) \<le> m_score (m_players hearts_state ! j))
                 \<and> (\<forall>j < k. m_score (m_players hearts_state ! k) < m_score (m_players hearts_state ! j))
              else (\<forall>j < length (m_players hearts_state).
                      m_score (m_players hearts_state ! j) \<le> m_score (m_players hearts_state ! k))
                 \<and> (\<forall>j < k. m_score (m_players hearts_state ! j) < m_score (m_players hearts_state ! k))"
    by blast
  from ext hearts
  have low: "\<forall>j < length (m_players hearts_state).
                m_score (m_players hearts_state ! k) \<le> m_score (m_players hearts_state ! j)"
    and mfirst: "\<forall>j < k. m_score (m_players hearts_state ! k) < m_score (m_players hearts_state ! j)"
    by simp_all
  have len: "length (m_players hearts_state) = 3" by (simp add: mps)
  from k have "k = 0 \<or> k = 1 \<or> k = 2" unfolding len by arith
  then have "k = 1"
  proof (elim disjE)
    assume "k = 0"
    with low len have "m_score (m_players hearts_state ! 0) \<le> m_score (m_players hearts_state ! 1)"
      by simp
    then show ?thesis by (simp add: mps)
  next
    assume "k = 1"
    then show ?thesis .
  next
    assume "k = 2"
    with mfirst have "m_score (m_players hearts_state ! 2) < m_score (m_players hearts_state ! 1)"
      by simp
    then show ?thesis by (simp add: mps)
  qed
  with mwin have mobile: "getWinner_mobile hearts_state = Some \<lparr>m_id = ''8'', m_name = ''Bob'', m_score = 2\<rparr>"
    by (simp add: mps)
  from cur2 totals2 web2 cur web mne mobile opened some show ?thesis by simp
qed

text \<open>
  The claim as stated fails on the web variant for the goal \<open>lowest wins\<close>: after two
  committed rounds Alice has the minimal total, 3, and \<open>getWinner\<close> names Bob, who has 7.
\<close>

theorem getWinner_web_ignores_goal:
  "currentGame two_rounds_state = Some two_rounds_game
   \<and> rounds two_rounds_game \<noteq> []
   \<and> totalScore_spec two_rounds_game (p_id alice) = 3
   \<and> totalScore_spec two_rounds_game (p_id bob) = 7
   \<and> getWinner_web two_rounds_state = Some bob
   \<and> getWinner_web two_rounds_state \<noteq> Some alice"
  unfolding two_rounds_run
  by (simp add: two_rounds_game_def totalScore_spec_def round_score_def alice_def bob_def
      getWinner_web_def getPlayerTotalScore_def exceeds_def web_init_def)

section \<open>The standings\<close>

lemma mset_insert_sorted: "mset (insert_sorted cmp x ys) = add_mset x (mset ys)"
  by (induction ys) auto

lemma array_sort_snoc: "array_sort cmp (xs @ [x]) = insert_sorted cmp x (array_sort cmp xs)"
  by (simp add: array_sort_def)

lemma mset_array_sort: "mset (array_sort cmp xs) = mset xs"
  by (induction xs rule: rev_induct) (simp_all add: array_sort_snoc mset_insert_sorted, simp add: array_sort_def)

lemma set_insert_sorted: "set (insert_sorted cmp x ys) = insert x (set ys)"
  by (induction ys) auto

lemma descending_insert_sorted:
  fixes g :: "'a \<Rightarrow> int"
  shows "sorted_wrt (\<lambda>a b. g a \<ge> g b) ys \<Longrightarrow>
         sorted_wrt (\<lambda>a b. g a \<ge> g b) (insert_sorted (\<lambda>a b. g b - g a) x ys)"
  by (induction ys) (auto simp: set_insert_sorted)

lemma descending_array_sort:
  fixes g :: "'a \<Rightarrow> int"
  shows "sorted_wrt (\<lambda>a b. g a \<ge> g b) (array_sort (\<lambda>a b. g b - g a) xs)"
proof (induction xs rule: rev_induct)
  case Nil
  then show ?case by (simp add: array_sort_def)
next
  case (snoc x xs)
  then show ?case by (simp add: array_sort_snoc descending_insert_sorted)
qed

lemma filter_insert_sorted:
  fixes g :: "'a \<Rightarrow> int"
  shows "sorted_wrt (\<lambda>a b. g a \<ge> g b) ys \<Longrightarrow>
         filter (\<lambda>a. g a = t) (insert_sorted (\<lambda>a b. g b - g a) x ys)
         = (if g x = t then filter (\<lambda>a. g a = t) ys @ [x] else filter (\<lambda>a. g a = t) ys)"
proof (induction ys)
  case Nil
  then show ?case by simp
next
  case (Cons y ys)
  show ?case
  proof (cases "g y < g x")
    case True
    with Cons.prems have "\<forall>a \<in> set (y # ys). g a < g x" by auto
    then have "g x = t \<Longrightarrow> filter (\<lambda>a. g a = t) (y # ys) = []"
      by (auto simp: filter_empty_conv)
    with True show ?thesis by auto
  next
    case False
    with Cons show ?thesis by auto
  qed
qed

lemma filter_array_sort:
  fixes g :: "'a \<Rightarrow> int"
  shows "filter (\<lambda>a. g a = t) (array_sort (\<lambda>a b. g b - g a) xs) = filter (\<lambda>a. g a = t) xs"
proof (induction xs rule: rev_induct)
  case Nil
  then show ?case by (simp add: array_sort_def)
next
  case (snoc x xs)
  then show ?case
    by (simp add: array_sort_snoc filter_insert_sorted descending_array_sort)
qed

lemma stable_descending_unique:
  fixes g :: "'a \<Rightarrow> int"
  assumes "mset ys = mset xs"
    and "sorted_wrt (\<lambda>a b. g a \<ge> g b) ys"
    and "\<forall>t. filter (\<lambda>a. g a = t) ys = filter (\<lambda>a. g a = t) xs"
  shows "ys = array_sort (\<lambda>a b. g b - g a) xs"
proof -
  let ?f = "\<lambda>a. - g a"
  have key: "(\<lambda>x. ?f k = ?f x) = (\<lambda>a. g a = g k)" for k
    by (auto simp: fun_eq_iff)
  have "sort_key ?f xs = ys"
  proof (rule properties_for_sort_key)
    show "mset ys = mset xs" by (rule assms(1))
    show "filter (\<lambda>x. ?f k = ?f x) ys = filter (\<lambda>x. ?f k = ?f x) xs" for k
      unfolding key using assms(3) by blast
    show "sorted (map ?f ys)"
      using assms(2) by (simp add: sorted_map)
  qed
  moreover have "sort_key ?f xs = array_sort (\<lambda>a b. g b - g a) xs"
  proof (rule properties_for_sort_key)
    show "mset (array_sort (\<lambda>a b. g b - g a) xs) = mset xs" by (rule mset_array_sort)
    show "filter (\<lambda>x. ?f k = ?f x) (array_sort (\<lambda>a b. g b - g a) xs)
          = filter (\<lambda>x. ?f k = ?f x) xs" for k
      unfolding key by (rule filter_array_sort)
    show "sorted (map ?f (array_sort (\<lambda>a b. g b - g a) xs))"
      using descending_array_sort [of g xs] by (simp add: sorted_map)
  qed
  ultimately show ?thesis by simp
qed

text \<open>
  Claim C7. For an open game the list of the \<open>Total Scores\<close> card holds exactly the
  players of the game, each paired with its total score; it is sorted by descending
  total; rows with equal totals keep the order of the game's player sequence; and it is
  the only list with these three properties.
\<close>

theorem totalScores_stable_descending:
  "currentGame st = Some game \<longrightarrow>
     mset (totalScores st)
       = mset (map (\<lambda>player. (player, getPlayerTotalScore st (p_id player))) (g_players game))
     \<and> sorted_wrt (\<lambda>a b. snd a \<ge> snd b) (totalScores st)
     \<and> (\<forall>t. filter (\<lambda>a. snd a = t) (totalScores st)
            = filter (\<lambda>a. snd a = t)
                (map (\<lambda>player. (player, getPlayerTotalScore st (p_id player))) (g_players game)))
     \<and> (\<forall>ys. mset ys
              = mset (map (\<lambda>player. (player, getPlayerTotalScore st (p_id player))) (g_players game))
            \<and> sorted_wrt (\<lambda>a b. snd a \<ge> snd b) ys
            \<and> (\<forall>t. filter (\<lambda>a. snd a = t) ys
                   = filter (\<lambda>a. snd a = t)
                       (map (\<lambda>player. (player, getPlayerTotalScore st (p_id player)))
                          (g_players game)))
            \<longrightarrow> ys = totalScores st)"
proof
  assume cur: "currentGame st = Some game"
  let ?rows = "map (\<lambda>player. (player, getPlayerTotalScore st (p_id player))) (g_players game)"
  have out: "totalScores st = array_sort (\<lambda>a b. snd b - snd a) ?rows"
    using cur by (simp add: totalScores_def)
  have perm: "mset (totalScores st) = mset ?rows"
    unfolding out by (rule mset_array_sort)
  have desc: "sorted_wrt (\<lambda>a b. snd a \<ge> snd b) (totalScores st)"
    unfolding out by (rule descending_array_sort)
  have stable: "\<forall>t. filter (\<lambda>a. snd a = t) (totalScores st) = filter (\<lambda>a. snd a = t) ?rows"
    unfolding out by (simp add: filter_array_sort)
  have unique: "\<forall>ys. mset ys = mset ?rows
            \<and> sorted_wrt (\<lambda>a b. snd a \<ge> snd b) ys
            \<and> (\<forall>t. filter (\<lambda>a. snd a = t) ys = filter (\<lambda>a. snd a = t) ?rows)
            \<longrightarrow> ys = totalScores st"
    unfolding out using stable_descending_unique [of _ ?rows snd] by blast
  from perm desc stable unique
  show "mset (totalScores st) = mset ?rows
     \<and> sorted_wrt (\<lambda>a b. snd a \<ge> snd b) (totalScores st)
     \<and> (\<forall>t. filter (\<lambda>a. snd a = t) (totalScores st) = filter (\<lambda>a. snd a = t) ?rows)
     \<and> (\<forall>ys. mset ys = mset ?rows
            \<and> sorted_wrt (\<lambda>a b. snd a \<ge> snd b) ys
            \<and> (\<forall>t. filter (\<lambda>a. snd a = t) ys = filter (\<lambda>a. snd a = t) ?rows)
            \<longrightarrow> ys = totalScores st)"
    by blast
qed

theorem totalScores_stable_descending_witness:
  "currentGame tie_state = Some tie_game
   \<and> totalScores tie_state = [(alice, 10), (charlie, 10), (bob, 8)]"
proof -
  let ?rows = "map (\<lambda>player. (player, getPlayerTotalScore tie_state (p_id player)))
                 (g_players tie_game)"
  let ?ys = "[(alice, 10), (charlie, 10), (bob, 8 :: int)]"
  have cur: "currentGame tie_state = Some tie_game"
    by (simp add: tie_state_def)
  have rows: "?rows = [(alice, 10), (bob, 8), (charlie, 10)]"
    by (simp add: tie_game_def alice_def bob_def charlie_def tie_totals)
  have perm: "mset ?ys = mset ?rows"
    unfolding rows by simp
  have desc: "sorted_wrt (\<lambda>a b. snd a \<ge> snd b) ?ys"
    by simp
  have stable: "\<forall>t. filter (\<lambda>a. snd a = t) ?ys = filter (\<lambda>a. snd a = t) ?rows"
    unfolding rows by simp
  from totalScores_stable_descending [of tie_state tie_game] cur
  have "\<forall>ys. mset ys = mset ?rows
            \<and> sorted_wrt (\<lambda>a b. snd a \<ge> snd b) ys
            \<and> (\<forall>t. filter (\<lambda>a. snd a = t) ys = filter (\<lambda>a. snd a = t) ?rows)
            \<longrightarrow> ys = totalScores tie_state"
    by blast
  with perm desc stable have "?ys = totalScores tie_state" by blast
  with cur show ?thesis by simp
qed

section \<open>Adjusting a score\<close>

subsection \<open>The running score of the mobile variant\<close>

text \<open>
  Claim C4. In the mobile variant \<open>updateScore\<close> sets the score of every player that
  bears the given id to \<open>max 0 (old + delta)\<close>, for every integer delta, and keeps the
  player's id and name; a player at 0 adjusted by -1 stays at 0.
\<close>

theorem updateScore_clamps:
  "(\<forall>i < length (m_players st). m_id (m_players st ! i) = pid \<longrightarrow>
      m_score (m_players (updateScore pid delta st) ! i)
        = max 0 (m_score (m_players st ! i) + delta)
      \<and> m_id (m_players (updateScore pid delta st) ! i) = pid
      \<and> m_name (m_players (updateScore pid delta st) ! i) = m_name (m_players st ! i))
   \<and> (\<forall>i < length (m_players st). m_id (m_players st ! i) = pid \<longrightarrow>
        m_score (m_players st ! i) = 0 \<longrightarrow>
        m_score (m_players (updateScore pid (- 1) st) ! i) = 0)
   \<and> length (m_players (updateScore pid delta st)) = length (m_players st)"
  by (simp add: updateScore_def)

theorem updateScore_clamps_witness:
  "m_players (updateScore ''7'' (- 1)
      (mobile_init\<lparr>m_players := [\<lparr>m_id = ''7'', m_name = ''Alice'', m_score = 0\<rparr>]\<rparr>))
   = [\<lparr>m_id = ''7'', m_name = ''Alice'', m_score = 0\<rparr>]"
proof -
  let ?st = "mobile_init\<lparr>m_players := [\<lparr>m_id = ''7'', m_name = ''Alice'', m_score = 0\<rparr>]\<rparr>"
  have len: "length (m_players (updateScore ''7'' (- 1) ?st)) = 1"
    using updateScore_clamps [of ?st "''7''" "- 1"] by simp
  have "m_score (m_players (updateScore ''7'' (- 1) ?st) ! 0) = 0
      \<and> m_id (m_players (updateScore ''7'' (- 1) ?st) ! 0) = ''7''
      \<and> m_name (m_players (updateScore ''7'' (- 1) ?st) ! 0) = ''Alice''"
    using updateScore_clamps [of ?st "''7''" "- 1"] by simp
  with len show ?thesis
    by (cases "m_players (updateScore ''7'' (- 1) ?st)") auto
qed

text \<open>
  Claim C10. In the mobile variant \<open>updateScore\<close> with an id that no player bears
  returns the state it was given: every player keeps id, name and score, no entry is
  created and no alert is raised.
\<close>

theorem updateScore_unknown_id:
  "pid \<notin> m_id ` set (m_players st) \<Longrightarrow> updateScore pid delta st = st"
proof -
  assume unknown: "pid \<notin> m_id ` set (m_players st)"
  have "map (\<lambda>player. if m_id player = pid
                       then player\<lparr>m_score := max 0 (m_score player + delta)\<rparr>
                       else player) (m_players st) = m_players st"
    using unknown by (intro map_idI) auto
  then show ?thesis by (simp add: updateScore_def)
qed

theorem updateScore_unknown_id_witness:
  "updateScore ''9'' 5
     (mobile_init\<lparr>m_players := [\<lparr>m_id = ''7'', m_name = ''Alice'', m_score = 3\<rparr>]\<rparr>)
   = mobile_init\<lparr>m_players := [\<lparr>m_id = ''7'', m_name = ''Alice'', m_score = 3\<rparr>]\<rparr>"
  using updateScore_unknown_id
    [of "''9''" "mobile_init\<lparr>m_players := [\<lparr>m_id = ''7'', m_name = ''Alice'', m_score = 3\<rparr>]\<rparr>" 5]
  by simp

subsection \<open>Both variants\<close>

text \<open>
  Claim C6, as amended. Neither variant ever rejects an adjustment. The web
  \<open>updateRoundScore\<close> sets the pending entry of the given id to its old value plus
  delta, where an id without an entry counts as 0 and gets an entry, and leaves every
  other pending entry and the rest of the state as they were. The mobile
  \<open>updateScore\<close> replaces the score of each player that bears the id by
  \<open>max 0 (old + delta)\<close> and leaves every other player as it was.
\<close>

theorem updateRoundScore_entry:
  "obj_get (currentRoundScores (updateRoundScore pid delta st)) pid
     = Some ((case obj_get (currentRoundScores st) pid of None \<Rightarrow> 0 | Some v \<Rightarrow> v) + delta)
   \<and> (\<forall>k. k \<noteq> pid \<longrightarrow>
         obj_get (currentRoundScores (updateRoundScore pid delta st)) k
           = obj_get (currentRoundScores st) k)
   \<and> (updateRoundScore pid delta st)\<lparr>currentRoundScores := currentRoundScores st\<rparr> = st
   \<and> length (m_players (updateScore mpid mdelta mst)) = length (m_players mst)
   \<and> (\<forall>i < length (m_players mst).
         m_players (updateScore mpid mdelta mst) ! i
           = (if m_id (m_players mst ! i) = mpid
              then (m_players mst ! i)\<lparr>m_score := max 0 (m_score (m_players mst ! i) + mdelta)\<rparr>
              else m_players mst ! i))
   \<and> (updateScore mpid mdelta mst)\<lparr>m_players := m_players mst\<rparr> = mst"
  by (simp add: updateRoundScore_def updateScore_def obj_get_obj_set)

theorem updateRoundScore_entry_witness:
  "obj_get (currentRoundScores (updateRoundScore ''1'' (- 2) sample_state)) ''1'' = Some 3
   \<and> obj_get (currentRoundScores (updateRoundScore ''1'' (- 2) sample_state)) ''2'' = Some 3
   \<and> m_players (updateScore ''7'' (- 5) sample_mobile) ! 0
       = \<lparr>m_id = ''7'', m_name = ''Alice'', m_score = 0\<rparr>
   \<and> m_players (updateScore ''7'' (- 5) sample_mobile) ! 1
       = \<lparr>m_id = ''8'', m_name = ''Bob'', m_score = 9\<rparr>"
proof -
  note fact = updateRoundScore_entry [where pid = "''1''" and delta = "- 2" and st = sample_state
      and mpid = "''7''" and mdelta = "- 5" and mst = sample_mobile]
  have old: "obj_get (currentRoundScores sample_state) ''1'' = Some 5"
    "obj_get (currentRoundScores sample_state) ''2'' = Some 3"
    by (simp_all add: sample_state_def obj_get_def)
  from fact have "obj_get (currentRoundScores (updateRoundScore ''1'' (- 2) sample_state)) ''1''
      = Some ((case obj_get (currentRoundScores sample_state) ''1'' of None \<Rightarrow> 0 | Some v \<Rightarrow> v) + - 2)"
    by blast
  then have a: "obj_get (currentRoundScores (updateRoundScore ''1'' (- 2) sample_state)) ''1'' = Some 3"
    by (simp add: old)
  from fact have "\<forall>k. k \<noteq> ''1'' \<longrightarrow>
         obj_get (currentRoundScores (updateRoundScore ''1'' (- 2) sample_state)) k
           = obj_get (currentRoundScores sample_state) k"
    by blast
  then have b: "obj_get (currentRoundScores (updateRoundScore ''1'' (- 2) sample_state)) ''2'' = Some 3"
    by (simp add: old)
  have ps: "m_players sample_mobile = [\<lparr>m_id = ''7'', m_name = ''Alice'', m_score = 4\<rparr>,
                                       \<lparr>m_id = ''8'', m_name = ''Bob'', m_score = 9\<rparr>]"
    by (simp add: sample_mobile_def)
  from fact have "\<forall>i < length (m_players sample_mobile).
         m_players (updateScore ''7'' (- 5) sample_mobile) ! i
           = (if m_id (m_players sample_mobile ! i) = ''7''
              then (m_players sample_mobile ! i)
                     \<lparr>m_score := max 0 (m_score (m_players sample_mobile ! i) + - 5)\<rparr>
              else m_players sample_mobile ! i)"
    by blast
  then have c: "m_players (updateScore ''7'' (- 5) sample_mobile) ! 0
       = \<lparr>m_id = ''7'', m_name = ''Alice'', m_score = 0\<rparr>
     \<and> m_players (updateScore ''7'' (- 5) sample_mobile) ! 1
       = \<lparr>m_id = ''8'', m_name = ''Bob'', m_score = 9\<rparr>"
    unfolding ps by simp
  from a b c show ?thesis by blast
qed

text \<open>
  The claim as stated fails: an id that denotes no player of the game is not rejected by
  the web variant, it gets a pending entry.
\<close>

theorem updateRoundScore_unknown_id_accepted:
  "''9'' \<notin> p_id ` set (g_players sample_game)
   \<and> obj_get (currentRoundScores sample_state) ''9'' = None
   \<and> obj_get (currentRoundScores (updateRoundScore ''9'' 5 sample_state)) ''9'' = Some 5"
  by (simp add: sample_game_def sample_state_def alice_def bob_def updateRoundScore_def
      obj_get_obj_set) (simp add: obj_get_def)

section \<open>Adding a player\<close>

lemmas string_eval = trim_def is_space_def toLowerCase_def lower_char_def char_of_def bit_0
  bit_Suc_0_iff

text \<open>
  For names typed without white space at either end the duplicate check of the mobile
  variant does what it is there for: no sequence of such additions yields two players
  with case-insensitively equal names.
\<close>

lemma addPlayer_mobile_distinct:
  assumes "trim name = name"
    and "distinct (map (\<lambda>p. toLowerCase (m_name p)) (m_players st))"
    and "addPlayer_mobile now (st\<lparr>m_newPlayerName := name\<rparr>) = Inr st'"
  shows "distinct (map (\<lambda>p. toLowerCase (m_name p)) (m_players st'))"
proof -
  from assms(3) have fresh: "\<forall>p \<in> set (m_players st). toLowerCase (m_name p) \<noteq> toLowerCase name"
    by (auto simp: addPlayer_mobile_def list_ex_iff Let_def split: if_splits)
  from assms(3) have "m_players st' = m_players st @ [\<lparr>m_id = now, m_name = trim name, m_score = 0\<rparr>]"
    by (auto simp: addPlayer_mobile_def Let_def split: if_splits)
  with assms(1,2) fresh show ?thesis by auto
qed

lemma addPlayers_distinct:
  "\<forall>(name, now) \<in> set inputs. trim name = name \<Longrightarrow>
   distinct (map (\<lambda>p. toLowerCase (m_name p)) (m_players st)) \<Longrightarrow>
   distinct (map (\<lambda>p. toLowerCase (m_name p)) (m_players (addPlayers inputs st)))"
proof (induction inputs arbitrary: st)
  case Nil
  then show ?case by simp
next
  case (Cons input inputs)
  obtain name now where input: "input = (name, now)" by (cases input)
  from Cons.prems(1) input have trimmed: "trim name = name"
    and rest: "\<forall>(name, now) \<in> set inputs. trim name = name"
    by auto
  show ?case
  proof (cases "addPlayer_mobile now (st\<lparr>m_newPlayerName := name\<rparr>)")
    case (Inl a)
    with Cons.IH [OF rest, of "st\<lparr>m_newPlayerName := name\<rparr>"] Cons.prems(2) input
    show ?thesis by simp
  next
    case (Inr st')
    from addPlayer_mobile_distinct [OF trimmed Cons.prems(2) Inr]
    have "distinct (map (\<lambda>p. toLowerCase (m_name p)) (m_players st'))" .
    with Cons.IH [OF rest] Inr input show ?thesis by simp
  qed
qed

lemma lower_names:
  "toLowerCase ''Alice'' = ''alice''" "toLowerCase ''alice'' = ''alice''"
  "toLowerCase ''Bob'' = ''bob''"
  by (simp_all add: string_eval)

lemma trimmed_names:
  "trim ''Alice'' = ''Alice''" "trim ''alice'' = ''alice''" "trim ''Bob'' = ''Bob''"
  "trim ''  '' = []"
  by (simp_all add: string_eval)

text \<open>
  Claim C5. \<open>addPlayer\<close> trims the typed name, fails with \<open>EmptyName\<close> when it is
  blank after trimming, fails with \<open>DuplicateName\<close> when a player with a
  case-insensitively equal name exists, and otherwise appends a player that bears the
  trimmed name, so that no two players have case-insensitively equal names. The mobile
  variant breaks this: its duplicate check compares the name as typed, while the name it
  stores is the trimmed one. With Alice present, the typed name \<open>alice\<close> is rejected
  as a duplicate, but the same name typed with a leading blank is accepted and stored as
  \<open>alice\<close>; after the two additions the list holds two players with
  case-insensitively equal names.
\<close>

theorem addPlayer_mobile_untrimmed_duplicate:
  "addPlayer_mobile ''2''
     (mobile_init\<lparr>m_players := [\<lparr>m_id = ''1'', m_name = ''Alice'', m_score = 0\<rparr>],
                  m_newPlayerName := ''alice''\<rparr>)
     = Inl DuplicateName
   \<and> addPlayer_mobile ''2''
       (mobile_init\<lparr>m_players := [\<lparr>m_id = ''1'', m_name = ''Alice'', m_score = 0\<rparr>],
                    m_newPlayerName := '' alice''\<rparr>)
     = Inr (mobile_init\<lparr>m_players := [\<lparr>m_id = ''1'', m_name = ''Alice'', m_score = 0\<rparr>,
                                       \<lparr>m_id = ''2'', m_name = ''alice'', m_score = 0\<rparr>]\<rparr>)
   \<and> m_players (addPlayers [(''Alice'', ''1''), ('' alice'', ''2'')] mobile_init)
     = [\<lparr>m_id = ''1'', m_name = ''Alice'', m_score = 0\<rparr>,
        \<lparr>m_id = ''2'', m_name = ''alice'', m_score = 0\<rparr>]
   \<and> toLowerCase ''Alice'' = toLowerCase ''alice''
   \<and> \<not> distinct (map (\<lambda>p. toLowerCase (m_name p))
          (m_players (addPlayers [(''Alice'', ''1''), ('' alice'', ''2'')] mobile_init)))"
  by (simp add: addPlayer_mobile_def mobile_init_def string_eval)

text \<open>
  The web variant has no duplicate check at all and stores the name as typed: a second
  Alice joins the initial players.
\<close>

lemma addPlayer_web_same_name:
  "map p_name (players (addPlayer_web ''5'' (web_init\<lparr>newPlayerName := ''Alice''\<rparr>)))
     = [''Alice'', ''Bob'', ''Charlie'', ''Diana'', ''Alice'']"
  by (simp add: addPlayer_web_def web_init_def trimmed_names)

section \<open>Reset and replay\<close>

lemma total_by_scores:
  fixes a :: int
  shows "foldl (\<lambda>tot rnd. tot + F (scores rnd)) a rs = a + sum_list (map F (map scores rs))"
  by (induction rs arbitrary: a) (simp_all add: comp_def add.assoc)

lemma scores_of_views:
  "map round_view rs = map round_view rs' \<Longrightarrow> map scores rs = map scores rs'"
proof -
  assume "map round_view rs = map round_view rs'"
  then have "map (fst \<circ> snd) (map round_view rs) = map (fst \<circ> snd) (map round_view rs')"
    by simp
  then show ?thesis by (simp add: round_view_def comp_def)
qed

lemma same_ledger_total:
  assumes "same_ledger s t"
  shows "getPlayerTotalScore s pid = getPlayerTotalScore t pid"
proof (cases "currentGame s")
  case None
  with assms show ?thesis
    by (cases "currentGame t") (simp_all add: same_ledger_def getPlayerTotalScore_def)
next
  case (Some g)
  with assms obtain h where h: "currentGame t = Some h"
    and rs: "map round_view (rounds g) = map round_view (rounds h)"
    by (cases "currentGame t") (auto simp: same_ledger_def)
  let ?F = "\<lambda>ss. case find (\<lambda>s. playerId s = pid) ss of None \<Rightarrow> 0
                              | Some playerScore \<Rightarrow> score playerScore"
  have "getPlayerTotalScore s pid = 0 + sum_list (map ?F (map scores (rounds g)))"
    using Some total_by_scores [where F = ?F and a = 0 and rs = "rounds g"]
    by (simp add: getPlayerTotalScore_def)
  also have "\<dots> = 0 + sum_list (map ?F (map scores (rounds h)))"
    using scores_of_views [OF rs] by simp
  also have "\<dots> = getPlayerTotalScore t pid"
    using h total_by_scores [where F = ?F and a = 0 and rs = "rounds h"]
    by (simp add: getPlayerTotalScore_def)
  finally show ?thesis .
qed

lemma same_ledger_updateRoundScore:
  "same_ledger s t \<Longrightarrow> same_ledger (updateRoundScore pid change s) (updateRoundScore pid change t)"
  by (simp add: same_ledger_def updateRoundScore_def)

lemma same_ledger_finishRound:
  assumes "same_ledger s t"
  shows "same_ledger (finishRound now s) (finishRound now' t)"
proof (cases "currentGame s")
  case None
  with assms have "currentGame t = None"
    by (cases "currentGame t") (simp_all add: same_ledger_def)
  with None assms show ?thesis by (simp add: finishRound_def)
next
  case (Some g)
  with assms obtain h where h: "currentGame t = Some h"
    and ps: "g_players g = g_players h"
    and rs: "map round_view (rounds g) = map round_view (rounds h)"
    and pend: "currentRoundScores s = currentRoundScores t"
    by (cases "currentGame t") (auto simp: same_ledger_def)
  from rs have "length (rounds g) = length (rounds h)"
    by (rule map_eq_imp_length_eq)
  with ps rs pend show ?thesis
    by (simp add: finishRound_Some [OF Some] finishRound_Some [OF h] same_ledger_def round_view_def)
qed

lemma same_ledger_handle:
  "same_action a b \<Longrightarrow> same_ledger s t \<Longrightarrow> same_ledger (handle a s) (handle b t)"
  by (cases a; cases b)
    (simp_all add: same_action_def same_ledger_updateRoundScore same_ledger_finishRound)

lemma same_ledger_run:
  "list_all2 same_action evs evs' \<Longrightarrow> same_ledger s t \<Longrightarrow> same_ledger (run evs s) (run evs' t)"
proof (induction evs evs' arbitrary: s t rule: list_all2_induct)
  case Nil
  then show ?case by (simp add: run_def)
next
  case (Cons a evs b evs')
  from Cons.hyps(1) Cons.prems have "same_ledger (handle a s) (handle b t)"
    by (rule same_ledger_handle)
  then have "same_ledger (run evs (handle a s)) (run evs' (handle b t))"
    by (rule Cons.IH)
  then show ?case by (simp add: run_def)
qed

lemma same_action_players:
  "same_action a b \<Longrightarrow> currentGame s = Some g \<Longrightarrow>
   \<exists>g'. currentGame (handle a s) = Some g' \<and> g_players g' = g_players g"
  by (cases a) (simp_all add: same_action_def updateRoundScore_def finishRound_Some)

lemma run_players:
  "list_all2 same_action evs evs' \<Longrightarrow> currentGame s = Some g \<Longrightarrow>
   \<exists>g'. currentGame (run evs s) = Some g' \<and> g_players g' = g_players g"
proof (induction evs evs' arbitrary: s g rule: list_all2_induct)
  case Nil
  then show ?case by (simp add: run_def)
next
  case (Cons a evs b evs')
  from same_action_players [OF Cons.hyps(1) Cons.prems]
  obtain g1 where g1: "currentGame (handle a s) = Some g1" "g_players g1 = g_players g"
    by blast
  from Cons.IH [OF g1(1)] g1(2) show ?case by (simp add: run_def)
qed

lemma same_action_sym: "same_action a b \<Longrightarrow> same_action b a"
  by (cases a; cases b) (simp_all add: same_action_def)

lemma same_ledger_reset:
  assumes fresh: "currentGame s0 = Some game" "rounds game = []"
      "currentRoundScores s0 = zeroScores (g_players game)"
    and acts: "list_all2 same_action evs evs'"
  shows "same_ledger s0 (resetGame_web (run evs s0))"
proof -
  from run_players [OF acts fresh(1)]
  obtain g' where g': "currentGame (run evs s0) = Some g'" "g_players g' = g_players game"
    by blast
  with fresh show ?thesis
    by (simp add: same_ledger_def resetGame_web_Some [OF g'(1)])
qed

lemma same_actions_sym:
  "list_all2 same_action evs evs' \<Longrightarrow> list_all2 same_action evs' evs"
  by (induction evs evs' rule: list_all2_induct) (simp_all add: same_action_sym)

text \<open>
  Claim C9. Take a state as \<open>createGame\<close> or \<open>resetGame\<close> leaves it (an open game
  without rounds, all pending scores zero) and any sequence of adjustments and commits.
  Resetting the state that the sequence produced and replaying the sequence, with
  whatever clock values the repeated commits read, gives every player id the total
  score it had before the reset. The player sequence of the game is the same after
  every step of the first run, after the reset and after every step of the replay.
\<close>

theorem reset_replay_totals:
  "currentGame s0 = Some game \<and> rounds game = []
   \<and> currentRoundScores s0 = zeroScores (g_players game)
   \<and> list_all2 same_action evs evs' \<longrightarrow>
     (\<forall>pid. getPlayerTotalScore (run evs' (resetGame_web (run evs s0))) pid
            = getPlayerTotalScore (run evs s0) pid)
     \<and> (\<forall>n. map_option g_players (currentGame (run (take n evs) s0)) = Some (g_players game))
     \<and> map_option g_players (currentGame (resetGame_web (run evs s0))) = Some (g_players game)
     \<and> (\<forall>n. map_option g_players
               (currentGame (run (take n evs') (resetGame_web (run evs s0))))
            = Some (g_players game))"
proof
  assume "currentGame s0 = Some game \<and> rounds game = []
   \<and> currentRoundScores s0 = zeroScores (g_players game)
   \<and> list_all2 same_action evs evs'"
  then have cur: "currentGame s0 = Some game" and none: "rounds game = []"
    and pend: "currentRoundScores s0 = zeroScores (g_players game)"
    and acts: "list_all2 same_action evs evs'"
    by simp_all
  let ?r = "resetGame_web (run evs s0)"
  have "same_ledger s0 ?r"
    using cur none pend acts by (rule same_ledger_reset)
  with acts have "same_ledger (run evs s0) (run evs' ?r)"
    by (rule same_ledger_run)
  then have totals: "\<forall>pid. getPlayerTotalScore (run evs' ?r) pid
            = getPlayerTotalScore (run evs s0) pid"
    by (simp add: same_ledger_total)
  have first: "\<forall>n. map_option g_players (currentGame (run (take n evs) s0))
      = Some (g_players game)"
  proof
    fix n
    from acts have "list_all2 same_action (take n evs) (take n evs')"
      by (rule list_all2_takeI)
    from run_players [OF this cur] show "map_option g_players (currentGame (run (take n evs) s0))
      = Some (g_players game)"
      by auto
  qed
  from run_players [OF acts cur]
  obtain g' where g': "currentGame (run evs s0) = Some g'" "g_players g' = g_players game"
    by blast
  then have rcur: "currentGame ?r = Some (g'\<lparr>rounds := []\<rparr>)"
    by (simp add: resetGame_web_Some)
  with g' have reset: "map_option g_players (currentGame ?r) = Some (g_players game)"
    by simp
  have second: "\<forall>n. map_option g_players (currentGame (run (take n evs') ?r))
      = Some (g_players game)"
  proof
    fix n
    from acts have "list_all2 same_action evs' evs"
      by (rule same_actions_sym)
    then have "list_all2 same_action (take n evs') (take n evs)"
      by (rule list_all2_takeI)
    from run_players [OF this rcur] g'
    show "map_option g_players (currentGame (run (take n evs') ?r)) = Some (g_players game)"
      by auto
  qed
  from totals first reset second
  show "(\<forall>pid. getPlayerTotalScore (run evs' ?r) pid = getPlayerTotalScore (run evs s0) pid)
     \<and> (\<forall>n. map_option g_players (currentGame (run (take n evs) s0)) = Some (g_players game))
     \<and> map_option g_players (currentGame ?r) = Some (g_players game)
     \<and> (\<forall>n. map_option g_players (currentGame (run (take n evs') ?r)) = Some (g_players game))"
    by blast
qed

theorem reset_replay_totals_witness:
  "getPlayerTotalScore
     (run [UpdateRoundScore ''1'' 5, UpdateRoundScore ''2'' 3, FinishRound ''201'',
           UpdateRoundScore ''1'' (- 2), UpdateRoundScore ''2'' 4, FinishRound ''202'']
        (resetGame_web
           (run [UpdateRoundScore ''1'' 5, UpdateRoundScore ''2'' 3, FinishRound ''101'',
                 UpdateRoundScore ''1'' (- 2), UpdateRoundScore ''2'' 4, FinishRound ''102'']
              (run sample_setup web_init)))) ''2'' = 7
   \<and> getPlayerTotalScore
       (run [UpdateRoundScore ''1'' 5, UpdateRoundScore ''2'' 3, FinishRound ''101'',
             UpdateRoundScore ''1'' (- 2), UpdateRoundScore ''2'' 4, FinishRound ''102'']
          (run sample_setup web_init)) ''2'' = 7"
proof -
  let ?evs = "[UpdateRoundScore ''1'' 5, UpdateRoundScore ''2'' 3, FinishRound ''101'',
               UpdateRoundScore ''1'' (- 2), UpdateRoundScore ''2'' 4, FinishRound ''102'']"
  let ?evs' = "[UpdateRoundScore ''1'' 5, UpdateRoundScore ''2'' 3, FinishRound ''201'',
                UpdateRoundScore ''1'' (- 2), UpdateRoundScore ''2'' 4, FinishRound ''202'']"
  let ?s0 = "run sample_setup web_init"
  have cur: "currentGame ?s0 = Some sample_game"
    by (simp add: sample_setup_run)
  have none: "rounds sample_game = []"
    by (simp add: sample_game_def)
  have pend: "currentRoundScores ?s0 = zeroScores (g_players sample_game)"
    unfolding sample_setup_run by (simp add: web_eval)
  have acts: "list_all2 same_action ?evs ?evs'"
    by (simp add: same_action_def)
  from reset_replay_totals [of ?s0 sample_game ?evs ?evs'] cur none pend acts
  have "\<forall>pid. getPlayerTotalScore (run ?evs' (resetGame_web (run ?evs ?s0))) pid
            = getPlayerTotalScore (run ?evs ?s0) pid"
    by blast
  then have same: "getPlayerTotalScore (run ?evs' (resetGame_web (run ?evs ?s0))) ''2''
            = getPlayerTotalScore (run ?evs ?s0) ''2''"
    by blast
  have before: "getPlayerTotalScore (run ?evs ?s0) ''2'' = 7"
    unfolding sample_setup_run by (simp add: web_eval getPlayerTotalScore_def)
  from same before show ?thesis by simp
qed

end
